theory Spec2Isabelle
  imports Complex_Main
begin

section \<open>Tabular datasets\<close>

text \<open>
  A pandas DataFrame is modelled row-major: the ordered list of its columns (name and
  dtype) and the ordered list of its rows, every row holding one cell per column.
  Numbers are exact reals: rounding to the nearest float64 is outside the model, and so
  are infinite entries; the overflow of a difference is modelled in the normalisation
  of the enrichment stage, where a property depends on it.  \<open>Missing\<close> is pandas'
  NaN / None.  The dtypes are the ones \<open>pd.read_csv\<close> gives the
  dashboard: \<open>int64\<close>, \<open>float64\<close> and \<open>object\<close> (text).
\<close>

datatype dtype = Int64 | Float64 | Object

datatype cell = Num real | Str string | Missing

record dataset =
  df_columns :: "(string \<times> dtype) list"
  df_rows :: "cell list list"

definition DataFrame_empty :: dataset where
  \<comment> \<open>\<open>pd.DataFrame()\<close>\<close>
  "DataFrame_empty = \<lparr>df_columns = [], df_rows = []\<rparr>"

definition len :: "dataset \<Rightarrow> nat" where
  \<comment> \<open>\<open>len(df)\<close>, \<open>df.shape[0]\<close>\<close>
  "len df = length (df_rows df)"

definition ncols :: "dataset \<Rightarrow> nat" where
  \<comment> \<open>\<open>len(df.columns)\<close>, \<open>df.shape[1]\<close>\<close>
  "ncols df = length (df_columns df)"

definition col_names :: "dataset \<Rightarrow> string list" where
  "col_names df = map fst (df_columns df)"

definition well_formed :: "dataset \<Rightarrow> bool" where
  \<comment> \<open>column labels are distinct and every row has one cell per column\<close>
  "well_formed df =
     (distinct (col_names df) \<and> list_all (\<lambda>r. length r = ncols df) (df_rows df))"

definition head :: "int \<Rightarrow> dataset \<Rightarrow> dataset" where
  \<comment> \<open>\<open>df.head(n)\<close>: the first \<open>n\<close> rows; for negative \<open>n\<close> all rows but the last \<open>-n\<close>\<close>
  "head n df =
     (if 0 \<le> n then df\<lparr>df_rows := take (nat n) (df_rows df)\<rparr>
      else df\<lparr>df_rows := take (length (df_rows df) - nat (- n)) (df_rows df)\<rparr>)"


section \<open>Run metrics tracker (\<open>PipelineMetrics\<close>)\<close>

record run =
  run_timestamp :: string
  run_duration :: real
  run_success :: bool
  run_records :: int

record pipeline_metrics =
  runs :: "run list"
  total_records :: int

definition PipelineMetrics_init :: pipeline_metrics where
  "PipelineMetrics_init = \<lparr>runs = [], total_records = 0\<rparr>"

definition add_run :: "pipeline_metrics \<Rightarrow> string \<Rightarrow> real \<Rightarrow> bool \<Rightarrow> int \<Rightarrow> pipeline_metrics" where
  \<comment> \<open>\<open>now\<close> is the value of \<open>datetime.now()\<close>\<close>
  "add_run m now duration success records =
     (let m1 = m\<lparr>runs := runs m @
                 [\<lparr>run_timestamp = now, run_duration = duration,
                   run_success = success, run_records = records\<rparr>]\<rparr>
      in if success then m1\<lparr>total_records := total_records m1 + records\<rparr> else m1)"

definition get_total_runs :: "pipeline_metrics \<Rightarrow> nat" where
  "get_total_runs m = length (runs m)"

definition get_success_rate :: "pipeline_metrics \<Rightarrow> real" where
  "get_success_rate m =
     (if runs m = [] then 100
      else (real (length (filter run_success (runs m))) / real (length (runs m))) * 100)"

definition get_avg_duration :: "pipeline_metrics \<Rightarrow> real" where
  "get_avg_duration m =
     (if runs m = [] then 0
      else sum_list (map run_duration (runs m)) / real (length (runs m)))"

definition get_total_records :: "pipeline_metrics \<Rightarrow> int" where
  "get_total_records m = total_records m"

text \<open>A sequence of \<open>add_run\<close> calls, each with its clock reading and arguments.\<close>

fun add_runs :: "pipeline_metrics \<Rightarrow> (string \<times> real \<times> bool \<times> int) list \<Rightarrow> pipeline_metrics" where
  "add_runs m [] = m"
| "add_runs m ((now, duration, success, records) # cs) =
     add_runs (add_run m now duration success records) cs"


section \<open>Query text parsing (Python string operations used by \<open>execute_query\<close>)\<close>

text \<open>
  \<open>str_upper\<close> is \<open>str.upper()\<close> on ASCII characters, \<open>find_first\<close> is \<open>str.find\<close>,
  \<open>str_split\<close> is \<open>str.split(sep)\<close>, \<open>strip\<close> is \<open>str.strip()\<close>, \<open>split_ws\<close> is
  \<open>str.split()\<close> and \<open>py_int\<close> is \<open>int(s)\<close> on a word without whitespace, where \<open>None\<close>
  stands for the \<open>ValueError\<close>.  Outside ASCII \<open>str.upper()\<close> may change the length of a
  text or map a character to an ASCII letter, and \<open>int\<close> reads other decimal digits; the
  statements about query texts are therefore made for texts of ASCII characters
  (\<open>is_ascii\<close>).
\<close>

definition is_ascii :: "char \<Rightarrow> bool" where
  "is_ascii c = ((of_char c :: nat) < 128)"

definition upper_char :: "char \<Rightarrow> char" where
  "upper_char c =
     (let n = (of_char c :: nat) in if 97 \<le> n \<and> n \<le> 122 then char_of (n - 32) else c)"

definition str_upper :: "string \<Rightarrow> string" where
  "str_upper s = map upper_char s"

definition is_space :: "char \<Rightarrow> bool" where
  \<comment> \<open>\<open>str.isspace\<close> on the characters below 256: tab, LF, VT, FF, CR, FS, GS, RS, US,
      blank, next line (133) and no-break space (160)\<close>
  "is_space c =
     (let n = (of_char c :: nat)
      in (9 \<le> n \<and> n \<le> 13) \<or> (28 \<le> n \<and> n \<le> 32) \<or> n = 133 \<or> n = 160)"

definition is_digit :: "char \<Rightarrow> bool" where
  "is_digit c = (let n = (of_char c :: nat) in 48 \<le> n \<and> n \<le> 57)"

definition digit_val :: "char \<Rightarrow> nat" where
  "digit_val c = of_char c - 48"

definition starts_with :: "string \<Rightarrow> string \<Rightarrow> bool" where
  "starts_with s p = (take (length p) s = p)"

fun find_first :: "string \<Rightarrow> string \<Rightarrow> nat option" where
  "find_first sep [] = (if sep = [] then Some 0 else None)"
| "find_first sep (c # cs) =
     (if starts_with (c # cs) sep then Some 0 else map_option Suc (find_first sep cs))"

definition str_contains :: "string \<Rightarrow> string \<Rightarrow> bool" where
  \<comment> \<open>\<open>sep in s\<close>\<close>
  "str_contains s sep = (find_first sep s \<noteq> None)"

function str_split :: "string \<Rightarrow> string \<Rightarrow> string list" where
  "str_split sep s =
     (if sep = [] then []
      else case find_first sep s of
             None \<Rightarrow> [s]
           | Some i \<Rightarrow> take i s # str_split sep (drop (i + length sep) s))"
  by pat_completeness auto
termination
proof (relation "measure (\<lambda>(sep, s). length s)")
  show "wf (measure (\<lambda>(sep, s). length s))" by simp
next
  fix sep s :: string and i :: nat
  assume sep: "sep \<noteq> []" and f: "find_first sep s = Some i"
  from sep f have "s \<noteq> []" by (cases s) auto
  with sep show "((sep, drop (i + length sep) s), (sep, s)) \<in> measure (\<lambda>(sep, s). length s)"
    by (cases sep) auto
qed

declare str_split.simps [simp del]

definition strip :: "string \<Rightarrow> string" where
  "strip s = rev (dropWhile is_space (rev (dropWhile is_space s)))"

fun split_ws :: "string \<Rightarrow> string \<Rightarrow> string list" where
  "split_ws cur [] = (if cur = [] then [] else [rev cur])"
| "split_ws cur (c # cs) =
     (if is_space c then (if cur = [] then split_ws [] cs else rev cur # split_ws [] cs)
      else split_ws (c # cur) cs)"

fun digits_acc :: "nat \<Rightarrow> string \<Rightarrow> nat option" where
  "digits_acc acc [] = Some acc"
| "digits_acc acc (c # cs) =
     (if is_digit c then digits_acc (10 * acc + digit_val c) cs
      else if c = CHR ''_'' then
        (case cs of
           [] \<Rightarrow> None
         | d # ds \<Rightarrow> if is_digit d then digits_acc (10 * acc + digit_val d) ds else None)
      else None)"

definition parse_nat :: "string \<Rightarrow> nat option" where
  \<comment> \<open>a decimal numeral: digits, single underscores allowed between digits\<close>
  "parse_nat s =
     (case s of [] \<Rightarrow> None | c # cs \<Rightarrow> if is_digit c then digits_acc (digit_val c) cs else None)"

definition max_str_digits :: nat where
  \<comment> \<open>\<open>sys.int_info.default_max_str_digits\<close>\<close>
  "max_str_digits = 4300"

definition py_int :: "string \<Rightarrow> int option" where
  \<comment> \<open>\<open>int(s)\<close>: an optional sign and a decimal numeral; a text of more than
      \<open>max_str_digits\<close> digits (leading zeros counted, underscores not) is refused\<close>
  "py_int s =
     (if max_str_digits < length (filter is_digit s) then None
      else case s of
             [] \<Rightarrow> None
           | c # cs \<Rightarrow>
               if c = CHR ''+'' then map_option int (parse_nat cs)
               else if c = CHR ''-'' then map_option (\<lambda>n. - int n) (parse_nat cs)
               else map_option int (parse_nat s))"


definition decimal :: "string \<Rightarrow> nat" where
  \<comment> \<open>the number written by a string of decimal digits\<close>
  "decimal w = foldl (\<lambda>acc c. 10 * acc + digit_val c) 0 w"


section \<open>Serving stage (\<open>AthenaSimulator\<close>)\<close>

record query_entry =
  q_query :: string
  q_timestamp :: string
  q_rows_returned :: nat

record athena =
  tables :: "string \<rightharpoonup> dataset"
  queries :: "query_entry list"

definition AthenaSimulator_init :: athena where
  "AthenaSimulator_init = \<lparr>tables = Map.empty, queries = []\<rparr>"

definition store_data :: "athena \<Rightarrow> dataset \<Rightarrow> string \<Rightarrow> athena" where
  "store_data a df table_name = a\<lparr>tables := (tables a)(table_name \<mapsto> df)\<rparr>"

definition parse_limit :: "string \<Rightarrow> int option" where
  \<comment> \<open>\<open>int(query.upper().split('LIMIT')[1].strip().split()[0])\<close>; \<open>None\<close> is any
      exception of the \<open>try\<close> block (\<open>IndexError\<close>, \<open>ValueError\<close>)\<close>
  "parse_limit query =
     (let parts = str_split ''LIMIT'' (str_upper query) in
      if length parts < 2 then None
      else case split_ws [] (strip (parts ! 1)) of
             [] \<Rightarrow> None
           | w # ws \<Rightarrow> py_int w)"

definition execute_query :: "athena \<Rightarrow> string \<Rightarrow> string \<Rightarrow> string \<Rightarrow> athena \<times> dataset" where
  \<comment> \<open>\<open>now\<close> is the value of \<open>datetime.now()\<close>; the result is the new simulator state
      and the returned frame\<close>
  "execute_query a now query table_name =
     (case tables a table_name of
        None \<Rightarrow> (a, DataFrame_empty)
      | Some df0 \<Rightarrow>
          let df = (if str_contains (str_upper query) ''LIMIT''
                    then (case parse_limit query of Some limit \<Rightarrow> head limit df0 | None \<Rightarrow> df0)
                    else df0)
          in (a\<lparr>queries := queries a @
                  [\<lparr>q_query = query, q_timestamp = now, q_rows_returned = len df\<rparr>]\<rparr>, df))"


section \<open>Column access and assignment\<close>

definition col_index :: "dataset \<Rightarrow> string \<Rightarrow> nat" where
  \<comment> \<open>position of the column labelled \<open>name\<close>; the column count when there is none\<close>
  "col_index df name = length (takeWhile (\<lambda>n. n \<noteq> name) (col_names df))"

definition column :: "dataset \<Rightarrow> string \<Rightarrow> cell list" where
  \<comment> \<open>\<open>df[name]\<close> for a label of the frame\<close>
  "column df name = map (\<lambda>r. r ! col_index df name) (df_rows df)"

definition set_col :: "dataset \<Rightarrow> string \<Rightarrow> dtype \<Rightarrow> cell list \<Rightarrow> dataset" where
  \<comment> \<open>\<open>df[name] = vals\<close>: overwrites the column when the label exists, appends it
      as the last column otherwise; \<open>vals\<close> holds one cell per row\<close>
  "set_col df name dt vals =
     (let i = col_index df name in
      if name \<in> set (col_names df)
      then df\<lparr>df_columns := (df_columns df)[i := (name, dt)],
              df_rows := map2 (\<lambda>r v. r[i := v]) (df_rows df) vals\<rparr>
      else df\<lparr>df_columns := df_columns df @ [(name, dt)],
              df_rows := map2 (\<lambda>r v. r @ [v]) (df_rows df) vals\<rparr>)"

definition is_number :: "dtype \<Rightarrow> bool" where
  "is_number dt = (dt = Int64 \<or> dt = Float64)"

definition numeric_columns :: "dataset \<Rightarrow> string list" where
  \<comment> \<open>\<open>df.select_dtypes(include=['number']).columns.tolist()\<close>\<close>
  "numeric_columns df = map fst (filter (\<lambda>(n, dt). is_number dt) (df_columns df))"

definition nums :: "cell list \<Rightarrow> real list" where
  \<comment> \<open>the numbers among the cells; pandas reductions skip NaN\<close>
  "nums cs = List.map_filter (\<lambda>c. case c of Num x \<Rightarrow> Some x | _ \<Rightarrow> None) cs"

definition fillna :: "cell \<Rightarrow> cell list \<Rightarrow> cell list" where
  "fillna v cs = map (\<lambda>c. if c = Missing then v else c) cs"

definition is_empty :: "dataset \<Rightarrow> bool" where
  \<comment> \<open>\<open>df.empty\<close>: some axis has length 0\<close>
  "is_empty df = (len df = 0 \<or> ncols df = 0)"

fun keep_first :: "cell list list \<Rightarrow> cell list list \<Rightarrow> cell list list" where
  "keep_first seen [] = []"
| "keep_first seen (r # rs) =
     (if r \<in> set seen then keep_first seen rs else r # keep_first (r # seen) rs)"

definition drop_duplicates :: "dataset \<Rightarrow> dataset" where
  \<comment> \<open>keeps the first occurrence of every row; an empty frame is returned as it is\<close>
  "drop_duplicates df =
     (if is_empty df then df else df\<lparr>df_rows := keep_first [] (df_rows df)\<rparr>)"

fun count_duplicated :: "cell list list \<Rightarrow> cell list list \<Rightarrow> nat" where
  "count_duplicated seen [] = 0"
| "count_duplicated seen (r # rs) =
     (if r \<in> set seen then Suc (count_duplicated seen rs) else count_duplicated (r # seen) rs)"

definition duplicated_sum :: "dataset \<Rightarrow> nat" where
  \<comment> \<open>\<open>df.duplicated().sum()\<close>: rows equal to an earlier row; 0 on an empty frame\<close>
  "duplicated_sum df = (if is_empty df then 0 else count_duplicated [] (df_rows df))"


section \<open>Storage stage (\<open>S3Simulator\<close>)\<close>

datatype error = OSError

record s3_simulator =
  storage :: "string \<rightharpoonup> dataset"

record upload_info =
  up_key :: string
  up_size :: nat

definition S3Simulator_init :: s3_simulator where
  "S3Simulator_init = \<lparr>storage = Map.empty\<rparr>"

definition str_replace_char :: "char \<Rightarrow> char \<Rightarrow> string \<Rightarrow> string" where
  "str_replace_char a b s = map (\<lambda>c. if c = a then b else c) s"

definition s3_upload_data ::
  "(string \<Rightarrow> dataset \<Rightarrow> error option) \<Rightarrow> s3_simulator \<Rightarrow> dataset \<Rightarrow> string
     \<Rightarrow> s3_simulator \<times> (error + upload_info)" where
  \<comment> \<open>\<open>to_csv path df\<close> is the file system's answer to \<open>df.to_csv(path)\<close>: \<open>Some e\<close>
      when the write raises \<open>e\<close>.  The store is assigned before the write, and nothing
      catches the exception.\<close>
  "s3_upload_data to_csv s df key =
     (let s1 = s\<lparr>storage := (storage s)(key \<mapsto> df)\<rparr>;
          csv_path = ''data/raw/'' @ str_replace_char CHR ''/'' CHR ''_'' key
      in case to_csv csv_path df of
           Some e \<Rightarrow> (s1, Inl e)
         | None \<Rightarrow> (s1, Inr \<lparr>up_key = key, up_size = len df\<rparr>))"


section \<open>Cleaning stage (\<open>GlueSimulator.process_data\<close>)\<close>

definition median :: "real list \<Rightarrow> real option" where
  \<comment> \<open>\<open>Series.median()\<close> of the non-missing values; \<open>None\<close> is NaN\<close>
  "median xs =
     (let s = sort xs; n = length s in
      if n = 0 then None
      else if odd n then Some (s ! (n div 2))
      else Some ((s ! (n div 2 - 1) + s ! (n div 2)) / 2))"

definition fill_column :: "dataset \<Rightarrow> string \<times> dtype \<Rightarrow> dataset" where
  \<comment> \<open>one iteration of the loop over \<open>processed_df.columns\<close>\<close>
  "fill_column df col =
     (case col of (name, dt) \<Rightarrow>
        if dt = Float64 \<or> dt = Int64 then
          (case median (nums (column df name)) of
             None \<Rightarrow> df
           | Some m \<Rightarrow> set_col df name dt (fillna (Num m) (column df name)))
        else set_col df name dt (fillna (Str ''Unknown'') (column df name)))"

definition glue_process_data :: "string \<Rightarrow> (nat \<Rightarrow> real) \<Rightarrow> dataset \<Rightarrow> dataset" where
  \<comment> \<open>\<open>now\<close> is \<open>datetime.now().isoformat()\<close>; \<open>rnd i\<close> is the \<open>i\<close>-th draw of
      \<open>np.random.uniform(0.9, 1.0, n)\<close>\<close>
  "glue_process_data now rnd df =
     (let d1 = drop_duplicates df;
          d2 = foldl fill_column d1 (df_columns d1);
          d3 = set_col d2 ''processed_timestamp'' Object (map (\<lambda>r. Str now) (df_rows d2));
          d4 = set_col d3 ''data_quality'' Float64 (map (\<lambda>i. Num (rnd i)) [0..<len d3])
      in d4)"


section \<open>Enrichment stage (\<open>LambdaSimulator.transform_data\<close>)\<close>

definition row_nums :: "dataset \<Rightarrow> string list \<Rightarrow> cell list \<Rightarrow> real list" where
  \<comment> \<open>the non-missing numbers of a row of \<open>df[numeric_cols]\<close>\<close>
  "row_nums df names r = nums (map (\<lambda>n. r ! col_index df n) names)"

definition np_sum :: "real list \<Rightarrow> cell" where
  "np_sum xs = Num (sum_list xs)"

definition np_mean :: "real list \<Rightarrow> cell" where
  "np_mean xs = (if xs = [] then Missing else Num (sum_list xs / real (length xs)))"

definition np_std :: "real list \<Rightarrow> cell" where
  \<comment> \<open>sample standard deviation (\<open>ddof=1\<close>, the pandas default): NaN below two values\<close>
  "np_std xs =
     (if length xs < 2 then Missing
      else let m = sum_list xs / real (length xs) in
           Num (sqrt (sum_list (map (\<lambda>x. (x - m)\<^sup>2) xs) / real (length xs - 1))))"

fun list_min :: "real list \<Rightarrow> real option" where
  "list_min [] = None"
| "list_min (x # xs) = Some (fold min xs x)"

fun list_max :: "real list \<Rightarrow> real option" where
  "list_max [] = None"
| "list_max (x # xs) = Some (fold max xs x)"

text \<open>
  The arithmetic of the normalisation is numpy's.  On an \<open>int64\<close> column the two
  subtractions are 64-bit integer subtractions, which wrap around on overflow
  (\<open>wrap64\<close>), and the quotient of the two integers is a float.  On a \<open>float64\<close> column
  a difference whose magnitude reaches \<open>2^1024 - 2^970\<close> rounds to infinity
  (\<open>float_overflow\<close>); a finite number divided by infinity is 0, and infinity divided by
  infinity is NaN.  Apart from these two effects quotients are exact: rounding to the
  nearest float is outside the model.  Rounding is monotone and leaves 0 and 1 fixed, so
  it moves no quotient out of the interval from 0 to 1.
\<close>

definition wrap64 :: "int \<Rightarrow> int" where
  \<comment> \<open>the value of a signed 64-bit integer after wrap-around\<close>
  "wrap64 x = (x + 2 ^ 63) mod 2 ^ 64 - 2 ^ 63"

definition is_integer :: "real \<Rightarrow> bool" where
  \<comment> \<open>the number is an integer, as every entry of an \<open>int64\<close> column is\<close>
  "is_integer x = (of_int \<lfloor>x\<rfloor> = x)"

definition float_overflow :: "real \<Rightarrow> bool" where
  \<comment> \<open>the real number rounds to an infinity in float64\<close>
  "float_overflow x = (2 ^ 1024 - 2 ^ 970 \<le> \<bar>x\<bar>)"

definition col_dtype :: "dataset \<Rightarrow> string \<Rightarrow> dtype" where
  \<comment> \<open>\<open>df[col].dtype\<close> for a label of the frame\<close>
  "col_dtype df col = snd (df_columns df ! col_index df col)"

definition normalized :: "dtype \<Rightarrow> real \<Rightarrow> real \<Rightarrow> cell \<Rightarrow> cell" where
  \<comment> \<open>one cell of \<open>(df[col] - col_min) / (col_max - col_min)\<close>.  The wrapped
      denominator of an \<open>int64\<close> column cannot be 0 when \<open>col_max > col_min\<close> are
      64-bit integers; that branch is written out only to keep the division defined.\<close>
  "normalized dt col_min col_max c =
     (case c of
        Num v \<Rightarrow>
          if dt = Int64 then
            (let num = wrap64 (\<lfloor>v\<rfloor> - \<lfloor>col_min\<rfloor>);
                 den = wrap64 (\<lfloor>col_max\<rfloor> - \<lfloor>col_min\<rfloor>)
             in if den = 0 then Missing else Num (of_int num / of_int den))
          else if float_overflow (col_max - col_min) then
            (if float_overflow (v - col_min) then Missing else Num 0)
          else Num ((v - col_min) / (col_max - col_min))
      | _ \<Rightarrow> Missing)"

definition col_min :: "dataset \<Rightarrow> string \<Rightarrow> real option" where
  \<comment> \<open>\<open>df[col].min()\<close>; \<open>None\<close> is the NaN of a column without numbers\<close>
  "col_min df col = list_min (nums (column df col))"

definition col_max :: "dataset \<Rightarrow> string \<Rightarrow> real option" where
  \<comment> \<open>\<open>df[col].max()\<close>\<close>
  "col_max df col = list_max (nums (column df col))"

definition normalize_column :: "dataset \<Rightarrow> string \<Rightarrow> dataset" where
  \<comment> \<open>one iteration of the normalisation loop; with a NaN on either side
      \<open>col_max > col_min\<close> is false\<close>
  "normalize_column df col =
     (case (col_min df col, col_max df col) of
        (Some mn, Some mx) \<Rightarrow>
          if mx > mn
          then set_col df (col @ ''_normalized'') Float64
                 (map (normalized (col_dtype df col) mn mx) (column df col))
          else df
      | _ \<Rightarrow> df)"

definition sum_dtype :: "dataset \<Rightarrow> string list \<Rightarrow> dtype" where
  "sum_dtype df names =
     (if list_all (\<lambda>n. snd (df_columns df ! col_index df n) = Int64) names then Int64 else Float64)"

definition add_aggregates :: "dataset \<Rightarrow> string list \<Rightarrow> dataset" where
  \<comment> \<open>the block ``Calculate aggregations'': each of the three assignments reads
      \<open>transformed_df[numeric_cols]\<close> as it is at that moment\<close>
  "add_aggregates df numeric_cols =
     (let t0 = set_col df ''numeric_sum'' (sum_dtype df numeric_cols)
                 (map (\<lambda>r. np_sum (row_nums df numeric_cols r)) (df_rows df));
          t1 = set_col t0 ''numeric_mean'' Float64
                 (map (\<lambda>r. np_mean (row_nums t0 numeric_cols r)) (df_rows t0));
          t2 = set_col t1 ''numeric_std'' Float64
                 (map (\<lambda>r. np_std (row_nums t1 numeric_cols r)) (df_rows t1))
      in t2)"

definition add_normalized :: "dataset \<Rightarrow> string list \<Rightarrow> dataset" where
  \<comment> \<open>the loop ``Add normalized columns'' over \<open>numeric_cols[:min(3, len(numeric_cols))]\<close>\<close>
  "add_normalized df numeric_cols =
     foldl normalize_column df (take (min 3 (length numeric_cols)) numeric_cols)"

definition add_metadata :: "string \<Rightarrow> (cell list \<Rightarrow> int) \<Rightarrow> dataset \<Rightarrow> dataset" where
  \<comment> \<open>the block ``Add transformation metadata''\<close>
  "add_metadata now hash_row df =
     (let t4 = set_col df ''transform_timestamp'' Object (map (\<lambda>r. Str now) (df_rows df));
          t5 = set_col t4 ''record_hash'' Int64
                 (map (\<lambda>r. Num (of_int (hash_row r))) (df_rows t4))
      in t5)"

definition lambda_transform_data :: "string \<Rightarrow> (cell list \<Rightarrow> int) \<Rightarrow> dataset \<Rightarrow> dataset" where
  \<comment> \<open>\<open>now\<close> is \<open>datetime.now().isoformat()\<close>; \<open>hash_row r\<close> is \<open>hash(str(row))\<close>\<close>
  "lambda_transform_data now hash_row df =
     (let numeric_cols = numeric_columns df;
          t3 = (if length numeric_cols > 0
                then add_normalized (add_aggregates df numeric_cols) numeric_cols
                else df)
      in add_metadata now hash_row t3)"


section \<open>Orchestrator (\<open>PipelineOrchestrator\<close>)\<close>

record stage_result =
  stage :: string
  data :: dataset
  s3_key :: "string option"
  timestamp :: string
  records :: nat
  quality_score :: "real option"

record aws_simulator =
  s3 :: s3_simulator
  athena :: athena

record orchestrator =
  aws :: aws_simulator
  execution_log :: "stage_result list"

definition PipelineOrchestrator_init :: orchestrator where
  "PipelineOrchestrator_init =
     \<lparr>aws = \<lparr>s3 = S3Simulator_init, athena = AthenaSimulator_init\<rparr>, execution_log = []\<rparr>"

definition ingest_data ::
  "(string \<Rightarrow> dataset \<Rightarrow> error option) \<Rightarrow> string \<Rightarrow> string \<Rightarrow> orchestrator \<Rightarrow> dataset
     \<Rightarrow> orchestrator \<times> (error + stage_result)" where
  \<comment> \<open>\<open>stamp\<close> is \<open>datetime.now().strftime('%Y%m%d_%H%M%S')\<close>, \<open>now\<close> the later
      \<open>datetime.now()\<close>.  An exception of the upload leaves the method at once: the
      store keeps its assignment, the execution log is not extended.\<close>
  "ingest_data to_csv stamp now orch df =
     (let key = ''raw/data_'' @ stamp @ ''.csv'' in
      case s3_upload_data to_csv (s3 (aws orch)) df key of
        (s1, Inl e) \<Rightarrow> (orch\<lparr>aws := (aws orch)\<lparr>s3 := s1\<rparr>\<rparr>, Inl e)
      | (s1, Inr info) \<Rightarrow>
          let result = \<lparr>stage = ''ingestion'', data = df, s3_key = Some key,
                        timestamp = now, records = len df, quality_score = None\<rparr>
          in (orch\<lparr>aws := (aws orch)\<lparr>s3 := s1\<rparr>,
                    execution_log := execution_log orch @ [result]\<rparr>, Inr result))"

definition process_data ::
  "string \<Rightarrow> (nat \<Rightarrow> real) \<Rightarrow> string \<Rightarrow> orchestrator \<Rightarrow> dataset \<Rightarrow> orchestrator \<times> stage_result" where
  "process_data glue_now rnd now orch df =
     (let processed_df = glue_process_data glue_now rnd df;
          result = \<lparr>stage = ''processing'', data = processed_df, s3_key = None,
                    timestamp = now, records = len processed_df, quality_score = Some 98.5\<rparr>
      in (orch\<lparr>execution_log := execution_log orch @ [result]\<rparr>, result))"

definition transform_data ::
  "string \<Rightarrow> (cell list \<Rightarrow> int) \<Rightarrow> string \<Rightarrow> orchestrator \<Rightarrow> dataset \<Rightarrow> orchestrator \<times> stage_result" where
  "transform_data lambda_now hash_row now orch df =
     (let transformed_df = lambda_transform_data lambda_now hash_row df;
          result = \<lparr>stage = ''transformation'', data = transformed_df, s3_key = None,
                    timestamp = now, records = len transformed_df, quality_score = None\<rparr>
      in (orch\<lparr>execution_log := execution_log orch @ [result]\<rparr>, result))"

definition setup_query :: "string \<Rightarrow> orchestrator \<Rightarrow> dataset \<Rightarrow> orchestrator \<times> stage_result" where
  "setup_query now orch df =
     (let a1 = store_data (athena (aws orch)) df ''pipeline_data'';
          result = \<lparr>stage = ''query'', data = df, s3_key = None,
                    timestamp = now, records = len df, quality_score = None\<rparr>
      in (orch\<lparr>aws := (aws orch)\<lparr>athena := a1\<rparr>,
                execution_log := execution_log orch @ [result]\<rparr>, result))"


section \<open>Quality checker (\<open>DataQualityChecker.check_quality\<close>)\<close>

text \<open>
  The quotients of \<open>check_quality\<close> are numpy scalar divisions.  \<open>None\<close> is the result
  of a division by zero: numpy answers \<open>nan\<close> with a warning, where plain Python numbers
  raise \<open>ZeroDivisionError\<close>; in neither case is there a number.  NaN propagates through
  the arithmetic that follows.
\<close>

definition np_div :: "real \<Rightarrow> real \<Rightarrow> real option" where
  "np_div a b = (if b = 0 then None else Some (a / b))"

function show_nat :: "nat \<Rightarrow> string" where
  "show_nat n =
     (if n < 10 then [char_of (48 + n)] else show_nat (n div 10) @ [char_of (48 + n mod 10)])"
  by pat_completeness auto
termination
  by (relation "measure (\<lambda>n. n)") auto

declare show_nat.simps [simp del]

definition count_missing :: "dataset \<Rightarrow> nat" where
  \<comment> \<open>\<open>df.isnull().sum().sum()\<close>\<close>
  "count_missing df = sum_list (map (\<lambda>r. length (filter (\<lambda>c. c = Missing) r)) (df_rows df))"

definition has_negative :: "dataset \<Rightarrow> string \<Rightarrow> bool" where
  \<comment> \<open>\<open>(df[col] < 0).any()\<close>\<close>
  "has_negative df col = list_ex (\<lambda>x. x < 0) (nums (column df col))"

definition validity_step :: "dataset \<Rightarrow> string list \<times> real \<Rightarrow> string \<Rightarrow> string list \<times> real" where
  \<comment> \<open>one iteration of the loop over the numeric columns, on \<open>(issues, validity)\<close>\<close>
  "validity_step df acc col =
     (case acc of (issues, validity) \<Rightarrow>
        if has_negative df col
        then (issues @ [''Column '' @ [CHR 0x27] @ col @ [CHR 0x27] @ '' contains negative values''],
              validity - 5)
        else (issues, validity))"

record quality_report =
  completeness :: "real option"
  validity :: real
  uniqueness :: "real option"
  issues :: "string list"
  overall_score :: "real option"

definition check_quality :: "dataset \<Rightarrow> quality_report" where
  "check_quality df =
     (let total_cells = len df * ncols df;
          missing_cells = count_missing df;
          completeness = map_option (\<lambda>q. q * 100)
                           (np_div (real_of_int (int total_cells - int missing_cells)) (real total_cells));
          issues0 = (if missing_cells > 0
                     then [''Found '' @ show_nat missing_cells @ '' missing values''] else []);
          (issues1, validity) = foldl (validity_step df) (issues0, 100) (numeric_columns df);
          duplicate_rows = duplicated_sum df;
          uniqueness = map_option (\<lambda>q. q * 100)
                         (np_div (real_of_int (int (len df) - int duplicate_rows)) (real (len df)));
          issues2 = (if duplicate_rows > 0
                     then issues1 @ [''Found '' @ show_nat duplicate_rows @ '' duplicate rows'']
                     else issues1)
      in \<lparr>completeness = completeness,
          validity = max validity 0,
          uniqueness = uniqueness,
          issues = issues2,
          overall_score =
            (case (completeness, uniqueness) of
               (Some c, Some u) \<Rightarrow> Some ((c + validity + u) / 3)
             | _ \<Rightarrow> None)\<rparr>)"


section \<open>Labels of derived columns\<close>

definition derived_names_fresh :: "dataset \<Rightarrow> bool" where
  \<comment> \<open>no column of the frame already carries the label of an aggregate column, or the
      label of a column of the frame followed by \<open>_normalized\<close>\<close>
  "derived_names_fresh df =
     list_all (\<lambda>c. c \<notin> set [''numeric_sum'', ''numeric_mean'', ''numeric_std''] \<and>
                   c @ ''_normalized'' \<notin> set (col_names df)) (col_names df)"


definition normalizable :: "dataset \<Rightarrow> string \<Rightarrow> bool" where
  \<comment> \<open>the test of the normalisation loop: both extrema are numbers and differ\<close>
  "normalizable df col =
     (case (col_min df col, col_max df col) of (Some mn, Some mx) \<Rightarrow> mx > mn | _ \<Rightarrow> False)"

definition normalized_column :: "dataset \<Rightarrow> string \<Rightarrow> cell list" where
  \<comment> \<open>\<open>(df[col] - col_min) / (col_max - col_min)\<close>\<close>
  "normalized_column df col =
     map (normalized (col_dtype df col) (the (col_min df col)) (the (col_max df col)))
       (column df col)"


section \<open>Concrete datasets\<close>

definition no_rows :: dataset where
  \<comment> \<open>one float column, no rows\<close>
  "no_rows = \<lparr>df_columns = [(''a'', Float64)], df_rows = []\<rparr>"

definition ten_rows :: dataset where
  \<comment> \<open>a table of ten rows\<close>
  "ten_rows = \<lparr>df_columns = [(''id'', Int64), (''name'', Object)],
                df_rows = map (\<lambda>i. [Num (real i), Str ''n'']) [0..<10]\<rparr>"

definition ten_rows_registered :: athena where
  \<comment> \<open>the serving stage after \<open>setup_query\<close> has registered \<open>ten_rows\<close>\<close>
  "ten_rows_registered =
     athena (aws (fst (setup_query ''2024-01-01T00:00:00'' PipelineOrchestrator_init ten_rows)))"

definition many_negative :: dataset where
  \<comment> \<open>one row of 21 distinctly named integer columns \<open>c0\<close> .. \<open>c20\<close>, all holding -1\<close>
  "many_negative = \<lparr>df_columns = map (\<lambda>i. (''c'' @ show_nat i, Int64)) [0..<21],
                     df_rows = [replicate 21 (Num (- 1))]\<rparr>"

definition int64_extremes :: dataset where
  \<comment> \<open>an \<open>int64\<close> column whose range exceeds \<open>2^63 - 1\<close>\<close>
  "int64_extremes = \<lparr>df_columns = [(''x'', Int64)],
                      df_rows = [[Num (- 5000000000000000000)], [Num 0],
                                 [Num 5000000000000000000]]\<rparr>"

definition float64_extremes :: dataset where
  \<comment> \<open>a \<open>float64\<close> column whose range exceeds the largest float\<close>
  "float64_extremes = \<lparr>df_columns = [(''x'', Float64)],
                        df_rows = [[Num (- (2 ^ 1023))], [Num 0], [Num (2 ^ 1023)]]\<rparr>"

definition four_numeric :: dataset where
  \<comment> \<open>four numeric columns, the second of them constant, and a text column\<close>
  "four_numeric =
     \<lparr>df_columns = [(''a'', Int64), (''name'', Object), (''b'', Float64), (''c'', Float64),
                    (''d'', Int64)],
      df_rows = [[Num 1, Str ''u'', Num 2, Num (1 / 2), Num 7],
                 [Num 2, Str ''v'', Num 2, Num 1, Num 8],
                 [Num 3, Str ''w'', Num 2, Num (5 / 2), Num 9]]\<rparr>"

definition colliding_labels :: dataset where
  \<comment> \<open>a constant numeric column that carries the label of a derived column\<close>
  "colliding_labels =
     \<lparr>df_columns = [(''a'', Int64), (''a_normalized'', Int64)],
      df_rows = [[Num 1, Num 5], [Num 2, Num 5]]\<rparr>"

definition one_numeric :: dataset where
  \<comment> \<open>exactly one numeric column; the frames below are its states after the three
      blocks of \<open>transform_data\<close>\<close>
  "one_numeric = \<lparr>df_columns = [(''x'', Float64), (''name'', Object)],
                   df_rows = [[Num 1, Str ''a''], [Num 3, Str ''b'']]\<rparr>"

definition one_numeric_aggregated :: dataset where
  "one_numeric_aggregated =
     \<lparr>df_columns = [(''x'', Float64), (''name'', Object), (''numeric_sum'', Float64),
                    (''numeric_mean'', Float64), (''numeric_std'', Float64)],
      df_rows = [[Num 1, Str ''a'', Num 1, Num 1, Missing],
                 [Num 3, Str ''b'', Num 3, Num 3, Missing]]\<rparr>"

definition one_numeric_normalized :: dataset where
  "one_numeric_normalized =
     \<lparr>df_columns = [(''x'', Float64), (''name'', Object), (''numeric_sum'', Float64),
                    (''numeric_mean'', Float64), (''numeric_std'', Float64),
                    (''x_normalized'', Float64)],
      df_rows = [[Num 1, Str ''a'', Num 1, Num 1, Missing, Num 0],
                 [Num 3, Str ''b'', Num 3, Num 3, Missing, Num 1]]\<rparr>"

definition one_numeric_transformed :: dataset where
  "one_numeric_transformed =
     \<lparr>df_columns = [(''x'', Float64), (''name'', Object), (''numeric_sum'', Float64),
                    (''numeric_mean'', Float64), (''numeric_std'', Float64),
                    (''x_normalized'', Float64), (''transform_timestamp'', Object),
                    (''record_hash'', Int64)],
      df_rows = [[Num 1, Str ''a'', Num 1, Num 1, Missing, Num 0, Str ''2024-01-01T00:00:00'', Num 0],
                 [Num 3, Str ''b'', Num 3, Num 3, Missing, Num 1, Str ''2024-01-01T00:00:00'', Num 0]]\<rparr>"


section \<open>Properties of the run metrics tracker\<close>

lemma add_run_total_records:
  "total_records m = sum_list (map run_records (filter run_success (runs m))) \<Longrightarrow>
   total_records (add_run m now d s r) =
     sum_list (map run_records (filter run_success (runs (add_run m now d s r))))"
  by (simp add: add_run_def Let_def)

lemma add_runs_total_records:
  "total_records m = sum_list (map run_records (filter run_success (runs m))) \<Longrightarrow>
   total_records (add_runs m cs) =
     sum_list (map run_records (filter run_success (runs (add_runs m cs))))"
proof (induction m cs rule: add_runs.induct)
  case (1 m)
  then show ?case by simp
next
  case (2 m now duration success records cs)
  then show ?case using add_run_total_records by simp
qed

lemma add_runs_runs:
  "runs (add_runs m cs) =
     runs m @ map (\<lambda>(now, d, s, r). \<lparr>run_timestamp = now, run_duration = d,
                                      run_success = s, run_records = r\<rparr>) cs"
  by (induction m cs rule: add_runs.induct) (simp_all add: add_run_def Let_def)

text \<open>
  C8.  A tracker with no runs recorded reports a success rate of 100 and an average
  duration of 0; after any sequence of \<open>add_run\<close> calls on a fresh tracker the run log
  holds exactly those calls and \<open>get_total_records\<close> is the sum of the record counts
  of the successful runs in the log, failed runs contributing nothing.
\<close>

theorem metrics_fresh_and_total_records:
  "get_success_rate PipelineMetrics_init = 100 \<and>
   get_avg_duration PipelineMetrics_init = 0 \<and>
   map (\<lambda>r. (run_timestamp r, run_duration r, run_success r, run_records r))
     (runs (add_runs PipelineMetrics_init cs)) = cs \<and>
   get_total_records (add_runs PipelineMetrics_init cs) =
     sum_list (map run_records (filter run_success (runs (add_runs PipelineMetrics_init cs)))) \<and>
   get_total_records (add_runs PipelineMetrics_init cs) =
     (\<Sum>(now, d, s, r) \<leftarrow> cs. if s then r else 0)"
proof -
  have a: "get_success_rate PipelineMetrics_init = 100"
    by (simp add: get_success_rate_def PipelineMetrics_init_def)
  have b: "get_avg_duration PipelineMetrics_init = 0"
    by (simp add: get_avg_duration_def PipelineMetrics_init_def)
  have c: "map (\<lambda>r. (run_timestamp r, run_duration r, run_success r, run_records r))
     (runs (add_runs PipelineMetrics_init cs)) = cs"
    by (simp add: add_runs_runs PipelineMetrics_init_def comp_def case_prod_beta)
  have d: "get_total_records (add_runs PipelineMetrics_init cs) =
     sum_list (map run_records (filter run_success (runs (add_runs PipelineMetrics_init cs))))"
    unfolding get_total_records_def
    by (rule add_runs_total_records) (simp add: PipelineMetrics_init_def)
  have e: "sum_list (map run_records (filter run_success
             (map (\<lambda>(now, d, s, r). \<lparr>run_timestamp = now, run_duration = d,
                                      run_success = s, run_records = r\<rparr>) xs))) =
           (\<Sum>(now, d, s, r) \<leftarrow> xs. if s then r else 0)" for xs :: "(string \<times> real \<times> bool \<times> int) list"
    by (induction xs) auto
  have f: "get_total_records (add_runs PipelineMetrics_init cs) =
     (\<Sum>(now, d, s, r) \<leftarrow> cs. if s then r else 0)"
    using d e [of cs] by (simp add: add_runs_runs PipelineMetrics_init_def)
  from a b c d f show ?thesis by blast
qed


section \<open>Properties of the serving stage's query log and table registry\<close>

text \<open>
  C3, as stated, fails: a query on a table name that has no registered dataset leaves
  \<open>execute_query\<close> through its first guard and records nothing.
\<close>

theorem execute_query_unknown_table_not_logged:
  "length (queries (fst (execute_query AthenaSimulator_init ''2024-01-01T00:00:00''
                           ''SELECT * LIMIT 2'' ''no_such_table''))) \<noteq>
   length (queries AthenaSimulator_init) + 1"
  by (simp add: execute_query_def AthenaSimulator_init_def)

text \<open>
  C3, amended.  A call of \<open>execute_query\<close> on a registered table name appends exactly
  one entry to the query log, holding the query text, the clock reading and the number
  of rows returned; a call on a table name with no registered dataset returns the empty
  frame and leaves the simulator, its query log included, as it was.
\<close>

theorem execute_query_logs_registered_tables:
  "(tables a table_name \<noteq> None \<longrightarrow>
      queries (fst (execute_query a now query table_name)) =
        queries a @ [\<lparr>q_query = query, q_timestamp = now,
                       q_rows_returned = len (snd (execute_query a now query table_name))\<rparr>] \<and>
      length (queries (fst (execute_query a now query table_name))) = length (queries a) + 1) \<and>
   (tables a table_name = None \<longrightarrow>
      execute_query a now query table_name = (a, DataFrame_empty))"
  by (auto simp: execute_query_def Let_def split: option.splits)

theorem execute_query_logs_registered_tables_witness:
  "tables (store_data AthenaSimulator_init DataFrame_empty ''pipeline_data'') ''pipeline_data'' \<noteq> None \<and>
   length (queries (fst (execute_query
       (store_data AthenaSimulator_init DataFrame_empty ''pipeline_data'')
       ''2024-01-01T00:00:00'' ''SELECT *'' ''pipeline_data''))) = 1 \<and>
   tables AthenaSimulator_init ''pipeline_data'' = None \<and>
   execute_query AthenaSimulator_init ''2024-01-01T00:00:00'' ''SELECT *'' ''pipeline_data'' =
     (AthenaSimulator_init, DataFrame_empty)"
  using execute_query_logs_registered_tables
          [of "store_data AthenaSimulator_init DataFrame_empty ''pipeline_data''"
              "''pipeline_data''" "''2024-01-01T00:00:00''" "''SELECT *''"]
        execute_query_logs_registered_tables
          [of AthenaSimulator_init "''pipeline_data''" "''2024-01-01T00:00:00''" "''SELECT *''"]
  by (simp add: store_data_def AthenaSimulator_init_def)

text \<open>
  C10.  \<open>execute_query\<close> is read-only on the table registry: whatever the query text and
  the table name, the registry after the call is the registry before it, and the query
  log after the call is the log before it, extended by at most one entry.
\<close>

theorem execute_query_tables_unchanged:
  "tables (fst (execute_query a now query table_name)) = tables a \<and>
   take (length (queries a)) (queries (fst (execute_query a now query table_name))) = queries a \<and>
   length (queries (fst (execute_query a now query table_name))) \<le> length (queries a) + 1"
  by (simp add: execute_query_def Let_def split: option.splits)


section \<open>Properties of ingestion\<close>

text \<open>
  C2, as stated, fails: when the CSV write raises, the error leaves \<open>ingest_data\<close>
  uncaught and no stage result is returned.
\<close>

theorem ingest_data_write_error_propagates:
  "snd (ingest_data (\<lambda>path df. Some OSError) ''20240101_000000'' ''2024-01-01T00:00:00''
          PipelineOrchestrator_init DataFrame_empty) = Inl OSError"
  by (simp add: ingest_data_def s3_upload_data_def Let_def)

text \<open>
  C2, amended.  \<open>ingest_data\<close> fails exactly when the durable CSV write raises.  That
  error is not caught: it reaches the caller, no stage result is returned and the
  execution log is not extended.  When the write succeeds, \<open>ingest_data\<close> returns the
  stage result (stage \<open>ingestion\<close>, the dataset itself, its row count) and appends it to
  the execution log.  In both cases the key-to-dataset mapping holds the dataset under
  the generated key, and every other key is as before.
\<close>

theorem ingest_data_outcomes:
  "storage (s3 (aws (fst (ingest_data to_csv stamp now orch df)))) =
     (storage (s3 (aws orch)))(''raw/data_'' @ stamp @ ''.csv'' \<mapsto> df) \<and>
   (to_csv (''data/raw/raw_data_'' @ str_replace_char CHR ''/'' CHR ''_'' stamp @ ''.csv'') df = None \<longrightarrow>
      snd (ingest_data to_csv stamp now orch df) =
        Inr \<lparr>stage = ''ingestion'', data = df, s3_key = Some (''raw/data_'' @ stamp @ ''.csv''),
             timestamp = now, records = len df, quality_score = None\<rparr> \<and>
      execution_log (fst (ingest_data to_csv stamp now orch df)) =
        execution_log orch @
          [\<lparr>stage = ''ingestion'', data = df, s3_key = Some (''raw/data_'' @ stamp @ ''.csv''),
            timestamp = now, records = len df, quality_score = None\<rparr>]) \<and>
   (\<forall>e. to_csv (''data/raw/raw_data_'' @ str_replace_char CHR ''/'' CHR ''_'' stamp @ ''.csv'') df = Some e \<longrightarrow>
      snd (ingest_data to_csv stamp now orch df) = Inl e \<and>
      execution_log (fst (ingest_data to_csv stamp now orch df)) = execution_log orch)"
  by (auto simp: ingest_data_def s3_upload_data_def str_replace_char_def Let_def
           split: option.splits)

theorem ingest_data_outcomes_witness:
  "(\<lambda>path df. None :: error option)
      (''data/raw/raw_data_'' @ str_replace_char CHR ''/'' CHR ''_'' ''20240101_000000'' @ ''.csv'')
      DataFrame_empty = None \<and>
   snd (ingest_data (\<lambda>path df. None) ''20240101_000000'' ''2024-01-01T00:00:00''
          PipelineOrchestrator_init DataFrame_empty) =
     Inr \<lparr>stage = ''ingestion'', data = DataFrame_empty,
          s3_key = Some ''raw/data_20240101_000000.csv'',
          timestamp = ''2024-01-01T00:00:00'', records = 0, quality_score = None\<rparr> \<and>
   (\<lambda>path df. Some OSError)
      (''data/raw/raw_data_'' @ str_replace_char CHR ''/'' CHR ''_'' ''20240101_000000'' @ ''.csv'')
      DataFrame_empty = Some OSError \<and>
   execution_log (fst (ingest_data (\<lambda>path df. Some OSError) ''20240101_000000''
          ''2024-01-01T00:00:00'' PipelineOrchestrator_init DataFrame_empty)) =
     execution_log PipelineOrchestrator_init"
  using ingest_data_outcomes
          [of "\<lambda>path df. None" "''20240101_000000''" "''2024-01-01T00:00:00''"
              PipelineOrchestrator_init DataFrame_empty]
        ingest_data_outcomes
          [of "\<lambda>path df. Some OSError" "''20240101_000000''" "''2024-01-01T00:00:00''"
              PipelineOrchestrator_init DataFrame_empty]
  by (simp add: len_def DataFrame_empty_def)


section \<open>Properties of the quality checker\<close>

lemma check_quality_completeness:
  "completeness (check_quality df) =
     map_option (\<lambda>q. q * 100)
       (np_div (real_of_int (int (len df * ncols df) - int (count_missing df)))
          (real (len df * ncols df)))"
  unfolding check_quality_def Let_def case_prod_beta by (rule quality_report.select_convs)

lemma check_quality_uniqueness:
  "uniqueness (check_quality df) =
     map_option (\<lambda>q. q * 100)
       (np_div (real_of_int (int (len df) - int (duplicated_sum df))) (real (len df)))"
  unfolding check_quality_def Let_def case_prod_beta by (rule quality_report.select_convs)

lemma check_quality_zero_rows:
  assumes "len df = 0"
  shows "completeness (check_quality df) = None" and "uniqueness (check_quality df) = None"
  using assms by (simp_all add: check_quality_completeness check_quality_uniqueness np_div_def)

text \<open>
  C1.  The claim asks that \<open>check_quality\<close> on a dataset without rows returns defined
  numbers.  The code divides by the cell count and by the row count without a guard:
  on the frame \<open>no_rows\<close> completeness, uniqueness and the overall score are no numbers
  (NaN from the division of zero by zero); only validity is defined.
\<close>

theorem check_quality_no_rows_undefined:
  "check_quality no_rows =
     \<lparr>completeness = None, validity = 100, uniqueness = None, issues = [],
      overall_score = None\<rparr>"
  unfolding no_rows_def by code_simp

text \<open>
  C4.  The claim asks that the overall score is the mean of the three returned fields.
  The code floors validity at 0 in the returned field only and averages the unfloored
  value: on \<open>many_negative\<close>, with 21 offending columns, the returned fields are 100, 0
  and 100, whose mean is 200/3, and the overall score is 65.
\<close>

theorem check_quality_overall_uses_unfloored_validity:
  "completeness (check_quality many_negative) = Some 100 \<and>
   validity (check_quality many_negative) = 0 \<and>
   uniqueness (check_quality many_negative) = Some 100 \<and>
   overall_score (check_quality many_negative) = Some 65 \<and>
   overall_score (check_quality many_negative) \<noteq> Some ((100 + 0 + 100) / 3)"
  by code_simp


section \<open>Column assignment\<close>

lemma idx_less: "x \<in> set xs \<Longrightarrow> length (takeWhile (\<lambda>n. n \<noteq> x) xs) < length xs"
  by (induction xs) auto

lemma nth_idx: "x \<in> set xs \<Longrightarrow> xs ! length (takeWhile (\<lambda>n. n \<noteq> x) xs) = x"
  by (induction xs) auto

lemma idx_new: "x \<notin> set xs \<Longrightarrow> length (takeWhile (\<lambda>n. n \<noteq> x) (xs @ [x])) = length xs"
  by (induction xs) auto

lemma ncols_eq_length_col_names: "ncols df = length (col_names df)"
  by (simp add: ncols_def col_names_def)

lemma col_index_less: "name \<in> set (col_names df) \<Longrightarrow> col_index df name < ncols df"
  by (simp add: col_index_def ncols_eq_length_col_names idx_less)

lemma col_names_nth_col_index:
  "name \<in> set (col_names df) \<Longrightarrow> col_names df ! col_index df name = name"
  by (simp add: col_index_def nth_idx)

lemma col_index_neq:
  "m \<in> set (col_names df) \<Longrightarrow> n \<in> set (col_names df) \<Longrightarrow> m \<noteq> n \<Longrightarrow>
   col_index df m \<noteq> col_index df n"
  using col_names_nth_col_index by metis

lemma col_names_set_col:
  "col_names (set_col df name dt vals) =
     (if name \<in> set (col_names df) then col_names df else col_names df @ [name])"
proof (cases "name \<in> set (col_names df)")
  case True
  have "map fst ((df_columns df)[col_index df name := (name, dt)]) =
        (col_names df)[col_index df name := name]"
    by (simp add: col_names_def map_update)
  also have "\<dots> = col_names df"
    using col_names_nth_col_index[OF True] by (metis list_update_id)
  finally show ?thesis using True by (simp add: set_col_def Let_def col_names_def)
next
  case False
  then show ?thesis by (simp add: set_col_def Let_def col_names_def)
qed

lemma row_length: "well_formed df \<Longrightarrow> k < len df \<Longrightarrow> length (df_rows df ! k) = ncols df"
  by (simp add: well_formed_def list_all_length len_def)

lemma well_formed_set_col:
  assumes "well_formed df" "length vals = len df"
  shows "well_formed (set_col df name dt vals)"
proof -
  have d: "distinct (col_names (set_col df name dt vals))"
    using assms(1) by (simp add: col_names_set_col well_formed_def)
  have r: "list_all (\<lambda>r. length r = ncols (set_col df name dt vals)) (df_rows (set_col df name dt vals))"
    using assms(1)
    by (auto simp: well_formed_def set_col_def Let_def ncols_def list_all_iff set_zip)
  from d r show ?thesis by (simp add: well_formed_def)
qed

lemma col_index_set_col:
  "m \<in> set (col_names df) \<Longrightarrow> col_index (set_col df name dt vals) m = col_index df m"
  by (simp add: col_index_def col_names_set_col takeWhile_append1)

lemma col_index_set_col_new:
  "name \<notin> set (col_names df) \<Longrightarrow> col_index (set_col df name dt vals) name = ncols df"
  by (simp add: col_index_def col_names_set_col ncols_eq_length_col_names idx_new)

lemma len_set_col: "length vals = len df \<Longrightarrow> len (set_col df name dt vals) = len df"
  by (simp add: set_col_def len_def Let_def)

lemma length_column: "length (column df name) = len df"
  by (simp add: column_def len_def)

lemma column_nth: "k < len df \<Longrightarrow> column df name ! k = df_rows df ! k ! col_index df name"
  by (simp add: column_def len_def)

lemma set_col_row_nth:
  assumes "length vals = len df" "k < len df"
  shows "df_rows (set_col df name dt vals) ! k =
           (if name \<in> set (col_names df)
            then (df_rows df ! k)[col_index df name := vals ! k]
            else df_rows df ! k @ [vals ! k])"
  using assms by (simp add: set_col_def Let_def len_def)

lemma column_set_col_same:
  assumes "well_formed df" "length vals = len df"
  shows "column (set_col df name dt vals) name = vals"
proof (rule nth_equalityI)
  show "length (column (set_col df name dt vals) name) = length vals"
    by (simp add: length_column len_set_col assms(2))
next
  fix k assume "k < length (column (set_col df name dt vals) name)"
  then have k: "k < len df" by (simp add: length_column len_set_col assms(2))
  then have k': "k < len (set_col df name dt vals)" by (simp add: len_set_col assms(2))
  have l: "length (df_rows df ! k) = ncols df" using assms(1) k by (rule row_length)
  show "column (set_col df name dt vals) name ! k = vals ! k"
  proof (cases "name \<in> set (col_names df)")
    case True
    then show ?thesis
      using col_index_less[OF True] l
      by (simp add: column_nth[OF k'] set_col_row_nth[OF assms(2) k] col_index_set_col)
  next
    case False
    have "(df_rows df ! k @ [vals ! k]) ! ncols df = vals ! k"
      using l by (metis nth_append_length)
    with False show ?thesis
      by (simp add: column_nth[OF k'] set_col_row_nth[OF assms(2) k] col_index_set_col_new)
  qed
qed

lemma column_set_col_other:
  assumes "well_formed df" "length vals = len df" "m \<in> set (col_names df)" "m \<noteq> name"
  shows "column (set_col df name dt vals) m = column df m"
proof (rule nth_equalityI)
  show "length (column (set_col df name dt vals) m) = length (column df m)"
    by (simp add: length_column len_set_col assms(2))
next
  fix k assume "k < length (column (set_col df name dt vals) m)"
  then have k: "k < len df" by (simp add: length_column len_set_col assms(2))
  then have k': "k < len (set_col df name dt vals)" by (simp add: len_set_col assms(2))
  have l: "length (df_rows df ! k) = ncols df" using assms(1) k by (rule row_length)
  show "column (set_col df name dt vals) m ! k = column df m ! k"
  proof (cases "name \<in> set (col_names df)")
    case True
    then show ?thesis
      using col_index_neq[OF assms(3) True assms(4)]
      by (simp add: column_nth[OF k'] column_nth[OF k] set_col_row_nth[OF assms(2) k]
            col_index_set_col[OF assms(3)])
  next
    case False
    then show ?thesis
      using l col_index_less[OF assms(3)]
      by (simp add: column_nth[OF k'] column_nth[OF k] set_col_row_nth[OF assms(2) k]
            col_index_set_col[OF assms(3)] nth_append)
  qed
qed


lemma df_columns_set_col:
  "df_columns (set_col df name dt vals) =
     (if name \<in> set (col_names df) then (df_columns df)[col_index df name := (name, dt)]
      else df_columns df @ [(name, dt)])"
  by (simp add: set_col_def Let_def)

lemma col_dtype_set_col_other:
  assumes "m \<in> set (col_names df)" "m \<noteq> name"
  shows "col_dtype (set_col df name dt vals) m = col_dtype df m"
proof -
  have e: "col_dtype (set_col df name dt vals) m =
             snd (df_columns (set_col df name dt vals) ! col_index df m)"
    by (simp only: col_dtype_def col_index_set_col[OF assms(1)])
  show ?thesis
  proof (cases "name \<in> set (col_names df)")
    case True
    have "(df_columns df)[col_index df name := (name, dt)] ! col_index df m =
          df_columns df ! col_index df m"
      using col_index_neq[OF assms(1) True assms(2)] by simp
    then show ?thesis unfolding e df_columns_set_col using True by (simp add: col_dtype_def)
  next
    case False
    have "col_index df m < length (df_columns df)"
      using col_index_less[OF assms(1)] by (simp add: ncols_def)
    then have "(df_columns df @ [(name, dt)]) ! col_index df m = df_columns df ! col_index df m"
      by (simp add: nth_append)
    then show ?thesis unfolding e df_columns_set_col using False by (simp add: col_dtype_def)
  qed
qed

section \<open>Record counts and column counts across the stages\<close>


lemma ncols_set_col: "ncols df \<le> ncols (set_col df name dt vals)"
  by (simp add: set_col_def ncols_def Let_def)


lemma len_fill_column: "len (fill_column df col) = len df"
  by (cases col) (simp add: fill_column_def len_set_col fillna_def length_column split: option.splits)

lemma ncols_fill_column: "ncols df \<le> ncols (fill_column df col)"
  by (cases col) (simp add: fill_column_def ncols_set_col split: option.splits)

lemma len_foldl_fill_column: "len (foldl fill_column df cols) = len df"
  by (induction cols arbitrary: df) (simp_all add: len_fill_column)

lemma ncols_foldl_fill_column: "ncols df \<le> ncols (foldl fill_column df cols)"
proof (induction cols arbitrary: df)
  case Nil
  show ?case by simp
next
  case (Cons c cs)
  have "ncols df \<le> ncols (fill_column df c)" by (rule ncols_fill_column)
  also have "\<dots> \<le> ncols (foldl fill_column (fill_column df c) cs)" by (rule Cons.IH)
  finally show ?case by simp
qed

lemma length_keep_first: "length (keep_first seen rs) \<le> length rs"
  by (induction rs arbitrary: seen) (auto simp: le_SucI)

lemma len_drop_duplicates: "len (drop_duplicates df) \<le> len df"
  by (simp add: drop_duplicates_def len_def length_keep_first)

lemma ncols_drop_duplicates: "ncols (drop_duplicates df) = ncols df"
  by (simp add: drop_duplicates_def ncols_def)

lemma len_set_col_rows:
  "len (set_col df name dt (map f (df_rows df))) = len df"
  by (rule len_set_col) (simp add: len_def)

lemma len_glue_process_data: "len (glue_process_data now rnd df) \<le> len df"
proof -
  define d2 where "d2 = foldl fill_column (drop_duplicates df) (df_columns (drop_duplicates df))"
  define d3 where "d3 = set_col d2 ''processed_timestamp'' Object (map (\<lambda>r. Str now) (df_rows d2))"
  have l2: "len d2 \<le> len df"
    unfolding d2_def by (simp only: len_foldl_fill_column len_drop_duplicates)
  have l3: "len d3 = len d2"
    unfolding d3_def by (rule len_set_col_rows)
  have l4: "len (set_col d3 ''data_quality'' Float64 (map (\<lambda>i. Num (rnd i)) [0..<len d3])) = len d3"
    by (rule len_set_col) simp
  have "glue_process_data now rnd df =
          set_col d3 ''data_quality'' Float64 (map (\<lambda>i. Num (rnd i)) [0..<len d3])"
    unfolding glue_process_data_def Let_def d3_def d2_def ..
  with l2 l3 l4 show ?thesis by simp
qed

lemma ncols_glue_process_data: "ncols df \<le> ncols (glue_process_data now rnd df)"
proof -
  have "ncols df = ncols (drop_duplicates df)" by (simp only: ncols_drop_duplicates)
  also have "\<dots> \<le> ncols (foldl fill_column (drop_duplicates df) (df_columns (drop_duplicates df)))"
    by (rule ncols_foldl_fill_column)
  finally show ?thesis
    unfolding glue_process_data_def Let_def
    by (rule order_trans[OF _ order_trans[OF ncols_set_col ncols_set_col]])
qed

lemma len_normalize_column: "len (normalize_column df col) = len df"
  by (simp add: normalize_column_def len_set_col length_column split: option.splits prod.splits)

lemma ncols_normalize_column: "ncols df \<le> ncols (normalize_column df col)"
  by (simp add: normalize_column_def ncols_set_col split: option.splits)

lemma len_foldl_normalize: "len (foldl normalize_column df cols) = len df"
  by (induction cols arbitrary: df) (simp_all add: len_normalize_column)

lemma ncols_foldl_normalize: "ncols df \<le> ncols (foldl normalize_column df cols)"
proof (induction cols arbitrary: df)
  case Nil
  show ?case by simp
next
  case (Cons c cs)
  have "ncols df \<le> ncols (normalize_column df c)" by (rule ncols_normalize_column)
  also have "\<dots> \<le> ncols (foldl normalize_column (normalize_column df c) cs)" by (rule Cons.IH)
  finally show ?case by simp
qed

lemma len_add_aggregates: "len (add_aggregates df cols) = len df"
  unfolding add_aggregates_def Let_def by (simp only: len_set_col_rows)

lemma ncols_add_aggregates: "ncols df \<le> ncols (add_aggregates df cols)"
  unfolding add_aggregates_def Let_def
  by (rule order_trans[OF _ ncols_set_col], rule order_trans[OF _ ncols_set_col], rule ncols_set_col)

lemma len_add_normalized: "len (add_normalized df cols) = len df"
  by (simp add: add_normalized_def len_foldl_normalize)

lemma ncols_add_normalized: "ncols df \<le> ncols (add_normalized df cols)"
  by (simp add: add_normalized_def ncols_foldl_normalize)

lemma len_add_metadata: "len (add_metadata now hash_row df) = len df"
  unfolding add_metadata_def Let_def by (simp only: len_set_col_rows)

lemma ncols_add_metadata: "ncols df \<le> ncols (add_metadata now hash_row df)"
  unfolding add_metadata_def Let_def
  by (rule order_trans[OF _ ncols_set_col], rule ncols_set_col)

lemma len_lambda_transform_data: "len (lambda_transform_data now hash_row df) = len df"
  by (simp add: lambda_transform_data_def Let_def len_add_metadata len_add_normalized len_add_aggregates)

lemma ncols_lambda_transform_data: "ncols df \<le> ncols (lambda_transform_data now hash_row df)"
proof -
  let ?t3 = "if length (numeric_columns df) > 0
             then add_normalized (add_aggregates df (numeric_columns df)) (numeric_columns df) else df"
  have "ncols df \<le> ncols ?t3"
    using order_trans[OF ncols_add_aggregates ncols_add_normalized] by simp
  also have "\<dots> \<le> ncols (add_metadata now hash_row ?t3)" by (rule ncols_add_metadata)
  finally show ?thesis by (simp add: lambda_transform_data_def Let_def)
qed

text \<open>
  C5.  The cleaning stage returns at most as many rows as it is given; the enrichment
  stage returns exactly as many rows as it is given; the serving stage registers and
  returns the dataset it is given; ingestion, when it returns, returns the dataset it is
  given; and neither cleaning nor enrichment lowers the column count.  Each stage result
  reports the row count of its dataset.
\<close>

theorem stage_row_and_column_counts:
  "len (data (snd (process_data glue_now rnd now orch df))) \<le> len df \<and>
   ncols df \<le> ncols (data (snd (process_data glue_now rnd now orch df))) \<and>
   records (snd (process_data glue_now rnd now orch df)) =
     len (data (snd (process_data glue_now rnd now orch df))) \<and>
   len (data (snd (transform_data lambda_now hash_row now orch df))) = len df \<and>
   ncols df \<le> ncols (data (snd (transform_data lambda_now hash_row now orch df))) \<and>
   records (snd (transform_data lambda_now hash_row now orch df)) = len df \<and>
   data (snd (setup_query now orch df)) = df \<and>
   records (snd (setup_query now orch df)) = len df \<and>
   tables (athena (aws (fst (setup_query now orch df)))) ''pipeline_data'' = Some df \<and>
   (case snd (ingest_data to_csv stamp now orch df) of Inl e \<Rightarrow> df | Inr r \<Rightarrow> data r) = df"
proof -
  have p: "data (snd (process_data glue_now rnd now orch df)) = glue_process_data glue_now rnd df"
    "records (snd (process_data glue_now rnd now orch df)) = len (glue_process_data glue_now rnd df)"
    by (simp_all add: process_data_def Let_def)
  have t: "data (snd (transform_data lambda_now hash_row now orch df)) =
             lambda_transform_data lambda_now hash_row df"
    "records (snd (transform_data lambda_now hash_row now orch df)) =
       len (lambda_transform_data lambda_now hash_row df)"
    by (simp_all add: transform_data_def Let_def)
  have q: "data (snd (setup_query now orch df)) = df"
    "records (snd (setup_query now orch df)) = len df"
    "tables (athena (aws (fst (setup_query now orch df)))) ''pipeline_data'' = Some df"
    by (simp_all add: setup_query_def store_data_def Let_def)
  have i: "(case snd (ingest_data to_csv stamp now orch df) of Inl e \<Rightarrow> df | Inr r \<Rightarrow> data r) = df"
    by (simp add: ingest_data_def s3_upload_data_def Let_def split: option.splits)
  show ?thesis
    by (simp only: p t q i len_glue_process_data ncols_glue_process_data
          len_lambda_transform_data ncols_lambda_transform_data simp_thms)
qed


section \<open>Normalised columns of the enrichment stage\<close>

lemma normalized_name_neq:
  "c @ ''_normalized'' \<notin> set [''numeric_sum'', ''numeric_mean'', ''numeric_std'',
                                 ''transform_timestamp'', ''record_hash'']"
proof
  assume "c @ ''_normalized'' \<in> set [''numeric_sum'', ''numeric_mean'', ''numeric_std'',
                                 ''transform_timestamp'', ''record_hash'']"
  then have "rev (c @ ''_normalized'') \<in> rev ` set [''numeric_sum'', ''numeric_mean'', ''numeric_std'',
                                 ''transform_timestamp'', ''record_hash'']"
    by (rule imageI)
  then show False by simp
qed

lemma nums_mem: "x \<in> set (nums cs) \<longleftrightarrow> Num x \<in> set cs"
  by (induction cs) (auto simp: nums_def List.map_filter_def split: cell.splits)

lemma list_min_Some:
  assumes "list_min vs = Some mn"
  shows "vs \<noteq> [] \<and> mn = Min (set vs)"
proof (cases vs)
  case Nil
  with assms show ?thesis by simp
next
  case (Cons a list)
  have "fold min list a = Min (set (a # list))" by (simp only: Min.set_eq_fold)
  with Cons assms show ?thesis by simp
qed

lemma list_max_Some:
  assumes "list_max vs = Some mx"
  shows "vs \<noteq> [] \<and> mx = Max (set vs)"
proof (cases vs)
  case Nil
  with assms show ?thesis by simp
next
  case (Cons a list)
  have "fold max list a = Max (set (a # list))" by (simp only: Max.set_eq_fold)
  with Cons assms show ?thesis by simp
qed

lemma col_min_least:
  assumes "col_min df c = Some mn"
  shows "mn \<in> set (nums (column df c))" and "\<forall>v \<in> set (nums (column df c)). mn \<le> v"
  using list_min_Some[OF assms[unfolded col_min_def]] by (auto intro: Min_in)

lemma col_max_greatest:
  assumes "col_max df c = Some mx"
  shows "mx \<in> set (nums (column df c))" and "\<forall>v \<in> set (nums (column df c)). v \<le> mx"
  using list_max_Some[OF assms[unfolded col_max_def]] by (auto intro: Max_in)

lemma normalized_range:
  fixes mn mx v :: real
  assumes "mn < mx" "mn \<le> v" "v \<le> mx"
  shows "0 \<le> (v - mn) / (mx - mn)" and "(v - mn) / (mx - mn) \<le> 1"
proof -
  have p: "0 < mx - mn" using assms(1) by simp
  show "0 \<le> (v - mn) / (mx - mn)" using p assms(2) by simp
  show "(v - mn) / (mx - mn) \<le> 1" using p assms(3) by (simp add: divide_le_eq)
qed

lemma well_formed_add_aggregates:
  assumes "well_formed df"
  shows "well_formed (add_aggregates df cols)"
  unfolding add_aggregates_def Let_def
  by (intro well_formed_set_col assms) (simp_all add: len_set_col len_def)

lemma col_names_add_aggregates:
  "set (col_names (add_aggregates df cols)) =
     set (col_names df) \<union> {''numeric_sum'', ''numeric_mean'', ''numeric_std''}"
  unfolding add_aggregates_def Let_def by (auto simp: col_names_set_col)

lemma column_add_aggregates:
  assumes "well_formed df" "c \<in> set (col_names df)"
    "c \<notin> set [''numeric_sum'', ''numeric_mean'', ''numeric_std'']"
  shows "column (add_aggregates df cols) c = column df c"
proof -
  define t0 where "t0 = set_col df ''numeric_sum'' (sum_dtype df cols)
                 (map (\<lambda>r. np_sum (row_nums df cols r)) (df_rows df))"
  define t1 where "t1 = set_col t0 ''numeric_mean'' Float64
                 (map (\<lambda>r. np_mean (row_nums t0 cols r)) (df_rows t0))"
  define t2 where "t2 = set_col t1 ''numeric_std'' Float64
                 (map (\<lambda>r. np_std (row_nums t1 cols r)) (df_rows t1))"
  have e: "add_aggregates df cols = t2"
    unfolding add_aggregates_def Let_def t2_def t1_def t0_def ..
  have w0: "well_formed t0" unfolding t0_def
    by (rule well_formed_set_col[OF assms(1)]) (simp add: len_def)
  have w1: "well_formed t1" unfolding t1_def
    by (rule well_formed_set_col[OF w0]) (simp add: len_def)
  have n0: "c \<in> set (col_names t0)" using assms(2) by (simp add: t0_def col_names_set_col)
  have n1: "c \<in> set (col_names t1)" using n0 by (simp add: t1_def col_names_set_col)
  have c0: "column t0 c = column df c" unfolding t0_def
    using assms(3) by (intro column_set_col_other[OF assms(1) _ assms(2)]) (simp_all add: len_def)
  have c1: "column t1 c = column t0 c" unfolding t1_def
    using assms(3) by (intro column_set_col_other[OF w0 _ n0]) (simp_all add: len_def)
  have c2: "column t2 c = column t1 c" unfolding t2_def
    using assms(3) by (intro column_set_col_other[OF w1 _ n1]) (simp_all add: len_def)
  show ?thesis by (simp only: e c2 c1 c0)
qed


lemma col_dtype_add_aggregates:
  assumes "c \<in> set (col_names df)"
    "c \<notin> set [''numeric_sum'', ''numeric_mean'', ''numeric_std'']"
  shows "col_dtype (add_aggregates df cols) c = col_dtype df c"
proof -
  define t0 where "t0 = set_col df ''numeric_sum'' (sum_dtype df cols)
                 (map (\<lambda>r. np_sum (row_nums df cols r)) (df_rows df))"
  define t1 where "t1 = set_col t0 ''numeric_mean'' Float64
                 (map (\<lambda>r. np_mean (row_nums t0 cols r)) (df_rows t0))"
  define t2 where "t2 = set_col t1 ''numeric_std'' Float64
                 (map (\<lambda>r. np_std (row_nums t1 cols r)) (df_rows t1))"
  have e: "add_aggregates df cols = t2"
    unfolding add_aggregates_def Let_def t2_def t1_def t0_def ..
  have n0: "c \<in> set (col_names t0)" using assms(1) by (simp add: t0_def col_names_set_col)
  have n1: "c \<in> set (col_names t1)" using n0 by (simp add: t1_def col_names_set_col)
  have c0: "col_dtype t0 c = col_dtype df c" unfolding t0_def
    using assms(2) by (intro col_dtype_set_col_other[OF assms(1)]) simp
  have c1: "col_dtype t1 c = col_dtype t0 c" unfolding t1_def
    using assms(2) by (intro col_dtype_set_col_other[OF n0]) simp
  have c2: "col_dtype t2 c = col_dtype t1 c" unfolding t2_def
    using assms(2) by (intro col_dtype_set_col_other[OF n1]) simp
  show ?thesis by (simp only: e c2 c1 c0)
qed

lemma normalize_column_eq:
  "normalize_column t c =
     (if normalizable t c
      then set_col t (c @ ''_normalized'') Float64 (normalized_column t c) else t)"
  by (simp add: normalize_column_def normalizable_def normalized_column_def
        split: option.splits prod.splits)

lemma length_normalized_column: "length (normalized_column t c) = len t"
  by (simp add: normalized_column_def length_column)

lemma well_formed_normalize_column:
  "well_formed t \<Longrightarrow> well_formed (normalize_column t c)"
  by (simp add: normalize_column_eq well_formed_set_col length_normalized_column)

lemma col_names_normalize_column:
  "set (col_names (normalize_column t c)) =
     set (col_names t) \<union> (if normalizable t c then {c @ ''_normalized''} else {})"
  by (auto simp: normalize_column_eq col_names_set_col)

lemma column_normalize_column_other:
  assumes "well_formed t" "m \<in> set (col_names t)" "m \<noteq> c @ ''_normalized''"
  shows "column (normalize_column t c) m = column t m"
  using assms
  by (simp add: normalize_column_eq column_set_col_other length_normalized_column)

lemma column_normalize_column_same:
  assumes "well_formed t" "normalizable t c"
  shows "column (normalize_column t c) (c @ ''_normalized'') = normalized_column t c"
  using assms
  by (simp add: normalize_column_eq column_set_col_same length_normalized_column)

lemma col_dtype_normalize_column_other:
  assumes "m \<in> set (col_names t)" "m \<noteq> c @ ''_normalized''"
  shows "col_dtype (normalize_column t c) m = col_dtype t m"
  using assms by (simp add: normalize_column_eq col_dtype_set_col_other)

lemma normalizable_cong:
  "column t' c = column t c \<Longrightarrow> normalizable t' c = normalizable t c"
  by (simp add: normalizable_def col_min_def col_max_def)

lemma normalized_column_cong:
  "column t' c = column t c \<Longrightarrow> col_dtype t' c = col_dtype t c \<Longrightarrow>
   normalized_column t' c = normalized_column t c"
  by (simp add: normalized_column_def col_min_def col_max_def)

lemma foldl_normalize_column:
  assumes "well_formed t" "distinct cs"
    "\<forall>c \<in> set cs. c \<in> set (col_names t) \<and> c @ ''_normalized'' \<notin> set (col_names t)"
  shows "well_formed (foldl normalize_column t cs) \<and>
         set (col_names (foldl normalize_column t cs)) =
           set (col_names t) \<union> {c @ ''_normalized'' |c. c \<in> set cs \<and> normalizable t c} \<and>
         (\<forall>m \<in> set (col_names t). column (foldl normalize_column t cs) m = column t m) \<and>
         (\<forall>c \<in> set cs. normalizable t c \<longrightarrow>
            column (foldl normalize_column t cs) (c @ ''_normalized'') = normalized_column t c)"
  using assms
proof (induction cs arbitrary: t)
  case Nil
  then show ?case by simp
next
  case (Cons c cs)
  let ?t' = "normalize_column t c"
  let ?r = "foldl normalize_column ?t' cs"
  have wt: "well_formed t" by (rule Cons.prems(1))
  have cin: "c \<in> set (col_names t)" and cfresh: "c @ ''_normalized'' \<notin> set (col_names t)"
    using Cons.prems(3) by simp_all
  have w': "well_formed ?t'" using wt by (rule well_formed_normalize_column)
  have d': "distinct cs" and cnot: "c \<notin> set cs" using Cons.prems(2) by simp_all
  have keep: "column ?t' m = column t m" if "m \<in> set (col_names t)" for m
    using that cfresh by (intro column_normalize_column_other[OF wt]) auto
  have pre: "\<forall>d \<in> set cs. d \<in> set (col_names ?t') \<and> d @ ''_normalized'' \<notin> set (col_names ?t')"
  proof
    fix d assume d: "d \<in> set cs"
    then have "d \<in> set (col_names t)" "d @ ''_normalized'' \<notin> set (col_names t)" "d \<noteq> c"
      using Cons.prems(3) cnot by auto
    then show "d \<in> set (col_names ?t') \<and> d @ ''_normalized'' \<notin> set (col_names ?t')"
      by (simp add: col_names_normalize_column)
  qed
  note ih = Cons.IH[OF w' d' pre]
  have same: "normalizable ?t' d = normalizable t d" "normalized_column ?t' d = normalized_column t d"
    if "d \<in> set cs" for d
  proof -
    have din: "d \<in> set (col_names t)" using that Cons.prems(3) by simp
    have k: "column ?t' d = column t d" using din by (rule keep)
    have "d \<noteq> c @ ''_normalized''" using din cfresh by auto
    then have kd: "col_dtype ?t' d = col_dtype t d"
      by (rule col_dtype_normalize_column_other[OF din])
    show "normalizable ?t' d = normalizable t d" using k by (rule normalizable_cong)
    show "normalized_column ?t' d = normalized_column t d"
      using k kd by (rule normalized_column_cong)
  qed
  have a: "well_formed (foldl normalize_column t (c # cs))" using ih by simp
  have "set (col_names ?r) =
          set (col_names ?t') \<union> {d @ ''_normalized'' |d. d \<in> set cs \<and> normalizable ?t' d}"
    using ih by blast
  also have "{d @ ''_normalized'' |d. d \<in> set cs \<and> normalizable ?t' d} =
             {d @ ''_normalized'' |d. d \<in> set cs \<and> normalizable t d}"
    using same(1) by blast
  finally have b: "set (col_names (foldl normalize_column t (c # cs))) =
           set (col_names t) \<union> {d @ ''_normalized'' |d. d \<in> set (c # cs) \<and> normalizable t d}"
    by (auto simp: col_names_normalize_column)
  have c1: "\<forall>m \<in> set (col_names t). column (foldl normalize_column t (c # cs)) m = column t m"
  proof
    fix m assume m: "m \<in> set (col_names t)"
    then have "m \<in> set (col_names ?t')" by (simp add: col_names_normalize_column)
    then have "column ?r m = column ?t' m" using ih by blast
    with keep[OF m] show "column (foldl normalize_column t (c # cs)) m = column t m" by simp
  qed
  have e: "\<forall>d \<in> set (c # cs). normalizable t d \<longrightarrow>
            column (foldl normalize_column t (c # cs)) (d @ ''_normalized'') = normalized_column t d"
  proof (intro ballI impI)
    fix d assume d: "d \<in> set (c # cs)" and n: "normalizable t d"
    show "column (foldl normalize_column t (c # cs)) (d @ ''_normalized'') = normalized_column t d"
    proof (cases "d = c")
      case True
      have "c @ ''_normalized'' \<in> set (col_names ?t')"
        using n True by (simp add: col_names_normalize_column)
      then have "column ?r (c @ ''_normalized'') = column ?t' (c @ ''_normalized'')"
        using ih by blast
      also have "\<dots> = normalized_column t c"
        using n True by (intro column_normalize_column_same[OF wt]) simp
      finally show ?thesis using True by simp
    next
      case False
      then have dcs: "d \<in> set cs" using d by simp
      then have "normalizable ?t' d" using n same(1) by simp
      then have "column ?r (d @ ''_normalized'') = normalized_column ?t' d"
        using ih dcs by blast
      then show ?thesis using same(2)[OF dcs] by simp
    qed
  qed
  from a b c1 e show ?case by blast
qed


lemma well_formed_add_metadata:
  "well_formed t \<Longrightarrow> well_formed (add_metadata now hash_row t)"
  unfolding add_metadata_def Let_def
  by (intro well_formed_set_col) (simp_all add: len_set_col len_def)

lemma col_names_add_metadata:
  "set (col_names (add_metadata now hash_row t)) =
     set (col_names t) \<union> {''transform_timestamp'', ''record_hash''}"
  unfolding add_metadata_def Let_def by (auto simp: col_names_set_col)

lemma column_add_metadata:
  assumes "well_formed t" "m \<in> set (col_names t)"
    "m \<notin> set [''transform_timestamp'', ''record_hash'']"
  shows "column (add_metadata now hash_row t) m = column t m"
proof -
  define t4 where "t4 = set_col t ''transform_timestamp'' Object (map (\<lambda>r. Str now) (df_rows t))"
  have e: "add_metadata now hash_row t =
             set_col t4 ''record_hash'' Int64 (map (\<lambda>r. Num (of_int (hash_row r))) (df_rows t4))"
    unfolding add_metadata_def Let_def t4_def ..
  have w4: "well_formed t4" unfolding t4_def
    by (rule well_formed_set_col[OF assms(1)]) (simp add: len_def)
  have n4: "m \<in> set (col_names t4)" using assms(2) by (simp add: t4_def col_names_set_col)
  have c4: "column t4 m = column t m" unfolding t4_def
    using assms(3) by (intro column_set_col_other[OF assms(1) _ assms(2)]) (simp_all add: len_def)
  have "column (add_metadata now hash_row t) m = column t4 m" unfolding e
    using assms(3) by (intro column_set_col_other[OF w4 _ n4]) (simp_all add: len_def)
  with c4 show ?thesis by simp
qed

lemma numeric_columns_subset: "set (numeric_columns df) \<subseteq> set (col_names df)"
  by (auto simp: numeric_columns_def col_names_def)

lemma distinct_numeric_columns: "well_formed df \<Longrightarrow> distinct (numeric_columns df)"
  by (simp add: numeric_columns_def well_formed_def col_names_def distinct_map_filter)

lemma take_min_3: "take (min 3 (length xs)) xs = take 3 xs"
  by (simp add: min_def)

lemma fresh_D:
  assumes "derived_names_fresh df" "c \<in> set (col_names df)"
  shows "c \<notin> set [''numeric_sum'', ''numeric_mean'', ''numeric_std'']"
    and "c @ ''_normalized'' \<notin> set (col_names df)"
  using assms by (auto simp: derived_names_fresh_def list_all_iff)

lemma transform_normalized_columns:
  assumes wf: "well_formed df" and fresh: "derived_names_fresh df"
  shows "\<forall>c \<in> set (col_names df).
           (c @ ''_normalized'' \<in> set (col_names (lambda_transform_data now hash_row df))) =
           (c \<in> set (take 3 (numeric_columns df)) \<and> normalizable df c)"
    and "\<forall>c \<in> set (take 3 (numeric_columns df)). normalizable df c \<longrightarrow>
           column (lambda_transform_data now hash_row df) (c @ ''_normalized'') = normalized_column df c"
proof -
  let ?nc = "numeric_columns df"
  let ?cs = "take 3 ?nc"
  let ?t2 = "add_aggregates df ?nc"
  let ?t3 = "foldl normalize_column ?t2 ?cs"
  let ?out = "lambda_transform_data now hash_row df"
  have cs_names: "set ?cs \<subseteq> set (col_names df)"
    using numeric_columns_subset[of df] set_take_subset[of 3 ?nc] by blast
  have nn: "c @ ''_normalized'' \<notin> {''numeric_sum'', ''numeric_mean'', ''numeric_std''}"
    "c @ ''_normalized'' \<notin> {''transform_timestamp'', ''record_hash''}" for c
    using normalized_name_neq[of c] by simp_all
  have fr: "c @ ''_normalized'' \<notin> set (col_names df)" if "c \<in> set (col_names df)" for c
    using fresh_D(2)[OF fresh that] .
  have both: "(\<forall>c \<in> set (col_names df).
           (c @ ''_normalized'' \<in> set (col_names ?out)) = (c \<in> set ?cs \<and> normalizable df c)) \<and>
     (\<forall>c \<in> set ?cs. normalizable df c \<longrightarrow>
           column ?out (c @ ''_normalized'') = normalized_column df c)"
  proof (cases "?nc = []")
    case True
    then have out: "?out = add_metadata now hash_row df"
      by (simp add: lambda_transform_data_def Let_def)
    have a: "\<forall>c \<in> set (col_names df).
           (c @ ''_normalized'' \<in> set (col_names ?out)) = (c \<in> set ?cs \<and> normalizable df c)"
      using True fr nn(2) by (simp add: out col_names_add_metadata)
    have b: "\<forall>c \<in> set ?cs. normalizable df c \<longrightarrow>
           column ?out (c @ ''_normalized'') = normalized_column df c"
      using True by simp
    from a b show ?thesis by blast
  next
    case False
    then have out: "?out = add_metadata now hash_row ?t3"
      by (simp add: lambda_transform_data_def Let_def add_normalized_def take_min_3)
    have w2: "well_formed ?t2" using wf by (rule well_formed_add_aggregates)
    have n2: "set (col_names ?t2) =
                set (col_names df) \<union> {''numeric_sum'', ''numeric_mean'', ''numeric_std''}"
      by (rule col_names_add_aggregates)
    have dcs: "distinct ?cs" using distinct_numeric_columns[OF wf] by (rule distinct_take)
    have pre: "\<forall>c \<in> set ?cs. c \<in> set (col_names ?t2) \<and> c @ ''_normalized'' \<notin> set (col_names ?t2)"
      using cs_names fr nn(1) n2 by auto
    note f = foldl_normalize_column[OF w2 dcs pre]
    have w3: "well_formed ?t3" using f by blast
    have n3: "set (col_names ?t3) =
                set (col_names ?t2) \<union> {c @ ''_normalized'' |c. c \<in> set ?cs \<and> normalizable ?t2 c}"
      using f by blast
    have c3: "\<forall>c \<in> set ?cs. normalizable ?t2 c \<longrightarrow>
                column ?t3 (c @ ''_normalized'') = normalized_column ?t2 c"
      using f by blast
    have keep: "column ?t2 c = column df c" if "c \<in> set ?cs" for c
    proof -
      have c: "c \<in> set (col_names df)" using that cs_names by blast
      show ?thesis by (rule column_add_aggregates[OF wf c fresh_D(1)[OF fresh c]])
    qed
    have keepd: "col_dtype ?t2 c = col_dtype df c" if "c \<in> set ?cs" for c
    proof -
      have c: "c \<in> set (col_names df)" using that cs_names by blast
      show ?thesis by (rule col_dtype_add_aggregates[OF c fresh_D(1)[OF fresh c]])
    qed
    have same: "normalizable ?t2 c = normalizable df c"
      "normalized_column ?t2 c = normalized_column df c" if "c \<in> set ?cs" for c
    proof -
      show "normalizable ?t2 c = normalizable df c" using keep[OF that] by (rule normalizable_cong)
      show "normalized_column ?t2 c = normalized_column df c"
        using keep[OF that] keepd[OF that] by (rule normalized_column_cong)
    qed
    have nout: "set (col_names ?out) =
                  set (col_names ?t3) \<union> {''transform_timestamp'', ''record_hash''}"
      unfolding out by (rule col_names_add_metadata)
    have a: "\<forall>c \<in> set (col_names df).
           (c @ ''_normalized'' \<in> set (col_names ?out)) = (c \<in> set ?cs \<and> normalizable df c)"
    proof
      fix c assume c: "c \<in> set (col_names df)"
      have "(c @ ''_normalized'' \<in> set (col_names ?out)) =
            (c @ ''_normalized'' \<in> {d @ ''_normalized'' |d. d \<in> set ?cs \<and> normalizable ?t2 d})"
        using fr[OF c] nn[of c] by (simp add: nout n3 n2)
      also have "\<dots> = (c \<in> set ?cs \<and> normalizable ?t2 c)" by auto
      also have "\<dots> = (c \<in> set ?cs \<and> normalizable df c)" using same(1) by blast
      finally show "(c @ ''_normalized'' \<in> set (col_names ?out)) =
                    (c \<in> set ?cs \<and> normalizable df c)" .
    qed
    have b: "\<forall>c \<in> set ?cs. normalizable df c \<longrightarrow>
           column ?out (c @ ''_normalized'') = normalized_column df c"
    proof (intro ballI impI)
      fix c assume c: "c \<in> set ?cs" and n: "normalizable df c"
      have n': "normalizable ?t2 c" using n same(1)[OF c] by simp
      have mem: "c @ ''_normalized'' \<in> set (col_names ?t3)" using c n' by (auto simp: n3)
      have "column ?out (c @ ''_normalized'') = column ?t3 (c @ ''_normalized'')"
        unfolding out using nn(2)[of c] by (intro column_add_metadata[OF w3 mem]) simp
      also have "\<dots> = normalized_column ?t2 c" using c3 c n' by blast
      also have "\<dots> = normalized_column df c" by (rule same(2)[OF c])
      finally show "column ?out (c @ ''_normalized'') = normalized_column df c" .
    qed
    from a b show ?thesis by blast
  qed
  from both show "\<forall>c \<in> set (col_names df).
           (c @ ''_normalized'' \<in> set (col_names ?out)) = (c \<in> set ?cs \<and> normalizable df c)"
    by blast
  from both show "\<forall>c \<in> set ?cs. normalizable df c \<longrightarrow>
           column ?out (c @ ''_normalized'') = normalized_column df c"
    by blast
qed


section \<open>The enrichment stage on a frame with one numeric column\<close>

lemmas eval_defs = set_col_def col_index_def col_names_def column_def row_nums_def nums_def
  List.map_filter_def Let_def

lemma one_numeric_numeric_columns: "numeric_columns one_numeric = [''x'']"
  by (simp add: one_numeric_def numeric_columns_def is_number_def)

lemma one_numeric_add_aggregates: "add_aggregates one_numeric [''x''] = one_numeric_aggregated"
  by (simp add: one_numeric_def one_numeric_aggregated_def add_aggregates_def eval_defs
        np_sum_def np_mean_def np_std_def sum_dtype_def)

lemma one_numeric_add_normalized: "add_normalized one_numeric_aggregated [''x''] = one_numeric_normalized"
  by (simp add: one_numeric_aggregated_def one_numeric_normalized_def add_normalized_def
        normalize_column_def normalized_def col_dtype_def float_overflow_def col_min_def
        col_max_def eval_defs)

lemma one_numeric_add_metadata: "add_metadata ''2024-01-01T00:00:00'' (\<lambda>r. 0) one_numeric_normalized = one_numeric_transformed"
  by (simp add: one_numeric_normalized_def one_numeric_transformed_def add_metadata_def eval_defs)

lemma one_numeric_lambda_transform_data: "lambda_transform_data ''2024-01-01T00:00:00'' (\<lambda>r. 0) one_numeric = one_numeric_transformed"
  by (simp add: lambda_transform_data_def one_numeric_numeric_columns
        one_numeric_add_aggregates one_numeric_add_normalized one_numeric_add_metadata)


section \<open>Normalisation of the first three numeric columns\<close>

lemma normalizable_iff:
  "normalizable df c = (\<exists>a b. col_min df c = Some a \<and> col_max df c = Some b \<and> a < b)"
  by (auto simp: normalizable_def split: option.splits)

lemma wrap64_id: "0 \<le> x \<Longrightarrow> x < 2 ^ 63 \<Longrightarrow> wrap64 x = x"
  by (simp add: wrap64_def)

lemma is_integer_diff:
  assumes "is_integer a" "is_integer b"
  shows "real_of_int (\<lfloor>a\<rfloor> - \<lfloor>b\<rfloor>) = a - b"
proof -
  from assms have "real_of_int \<lfloor>a\<rfloor> = a" "real_of_int \<lfloor>b\<rfloor> = b"
    unfolding is_integer_def by this+
  then show ?thesis by (simp only: of_int_diff)
qed

lemma normalized_exact:
  assumes lt: "mn < mx" and lo: "mn \<le> v" and hi: "v \<le> mx"
    and int: "dt = Int64 \<longrightarrow> is_integer v \<and> is_integer mn \<and> is_integer mx \<and> mx - mn < 2 ^ 63"
    and flt: "dt \<noteq> Int64 \<longrightarrow> mx - mn < 2 ^ 1024 - 2 ^ 970"
  shows "normalized dt mn mx (Num v) = Num ((v - mn) / (mx - mn))"
proof (cases "dt = Int64")
  case True
  with int have iv: "is_integer v" and im: "is_integer mn" and ix: "is_integer mx"
    and r: "mx - mn < 2 ^ 63" by simp_all
  let ?n = "\<lfloor>v\<rfloor> - \<lfloor>mn\<rfloor>" and ?d = "\<lfloor>mx\<rfloor> - \<lfloor>mn\<rfloor>"
  have rn: "real_of_int ?n = v - mn" by (rule is_integer_diff[OF iv im])
  have rd: "real_of_int ?d = mx - mn" by (rule is_integer_diff[OF ix im])
  have "real_of_int ?n \<ge> 0" "real_of_int ?d > 0" "real_of_int ?n \<le> real_of_int ?d"
    "real_of_int ?d < 2 ^ 63"
    unfolding rn rd using lt lo hi r by simp_all
  then have n0: "0 \<le> ?n" and d0: "0 < ?d" and nd: "?n \<le> ?d" and d63: "?d < 2 ^ 63"
    by (simp_all only: of_int_0_le_iff of_int_0_less_iff of_int_le_iff
          of_int_less_numeral_power_cancel_iff)
  have wn: "wrap64 ?n = ?n" using n0 nd d63 by (intro wrap64_id) simp_all
  have wd: "wrap64 ?d = ?d" using d0 d63 by (intro wrap64_id) simp_all
  show ?thesis
    unfolding normalized_def using True d0
    by (simp only: cell.case if_True Let_def wn wd rn rd) simp
next
  case False
  with flt lt have "\<not> float_overflow (mx - mn)" by (simp add: float_overflow_def)
  with False show ?thesis by (simp add: normalized_def)
qed

text \<open>
  C6, amended.  Take a dataset with distinct column labels, none of which is the label
  of a derived column (\<open>numeric_sum\<close>, \<open>numeric_mean\<close>, \<open>numeric_std\<close>, or a label of the
  dataset followed by \<open>_normalized\<close>), and one of its columns \<open>c\<close>.  If \<open>c\<close> is among the
  first three numeric columns (input order) and its minimum \<open>mn\<close> is below its maximum
  \<open>mx\<close>, the result of the enrichment stage has a column \<open>c_normalized\<close>, computed row by
  row from \<open>c\<close>, a missing value staying missing.  If moreover the range of \<open>c\<close> does
  not overflow (\<open>mx - mn\<close> below \<open>2^63\<close> on an \<open>int64\<close> column, below \<open>2^1024 - 2^970\<close> on
  a \<open>float64\<close> column), every number \<open>v\<close> of \<open>c\<close> is mapped to \<open>(v - mn) / (mx - mn)\<close>
  (rounding aside), which lies between 0 and 1, the minimum is mapped to 0 and the
  maximum to 1.  If \<open>c\<close> is not among the first three numeric columns, or has no
  numbers, or its maximum equals its minimum, the result has no column
  \<open>c_normalized\<close>; the stage is a total function, so the omission raises nothing.
\<close>

theorem normalization_of_first_three_numeric_columns:
  assumes "well_formed df" and "derived_names_fresh df" and "c \<in> set (col_names df)"
  shows
   "(c \<in> set (take 3 (numeric_columns df)) \<and>
     col_min df c = Some mn \<and> col_max df c = Some mx \<and> mn < mx \<longrightarrow>
       c @ ''_normalized'' \<in> set (col_names (lambda_transform_data now hash_row df)) \<and>
       column (lambda_transform_data now hash_row df) (c @ ''_normalized'') =
         map (normalized (col_dtype df c) mn mx) (column df c) \<and>
       Num mn \<in> set (column df c) \<and> Num mx \<in> set (column df c) \<and>
       (\<forall>v. Num v \<in> set (column df c) \<longrightarrow> mn \<le> v \<and> v \<le> mx) \<and>
       ((col_dtype df c = Int64 \<longrightarrow>
           list_all is_integer (nums (column df c)) \<and> mx - mn < 2 ^ 63) \<and>
        (col_dtype df c \<noteq> Int64 \<longrightarrow> mx - mn < 2 ^ 1024 - 2 ^ 970) \<longrightarrow>
          (\<forall>v. Num v \<in> set (column df c) \<longrightarrow>
             normalized (col_dtype df c) mn mx (Num v) = Num ((v - mn) / (mx - mn)) \<and>
             0 \<le> (v - mn) / (mx - mn) \<and> (v - mn) / (mx - mn) \<le> 1) \<and>
          normalized (col_dtype df c) mn mx (Num mn) = Num 0 \<and>
          normalized (col_dtype df c) mn mx (Num mx) = Num 1 \<and>
          (\<forall>cell \<in> set (column (lambda_transform_data now hash_row df) (c @ ''_normalized'')).
             cell = Missing \<or> (\<exists>x. cell = Num x \<and> 0 \<le> x \<and> x \<le> 1)))) \<and>
    (c \<notin> set (take 3 (numeric_columns df)) \<or> col_min df c = None \<or> col_max df c = None \<or>
     col_min df c = col_max df c \<longrightarrow>
       c @ ''_normalized'' \<notin> set (col_names (lambda_transform_data now hash_row df)))"
proof -
  let ?out = "lambda_transform_data now hash_row df"
  let ?dt = "col_dtype df c"
  note t = transform_normalized_columns[OF assms(1,2), of now hash_row]
  have emit: "(c @ ''_normalized'' \<in> set (col_names ?out)) =
                (c \<in> set (take 3 (numeric_columns df)) \<and> normalizable df c)"
    using t(1) assms(3) by blast
  have part2: "c \<notin> set (take 3 (numeric_columns df)) \<or> col_min df c = None \<or> col_max df c = None \<or>
     col_min df c = col_max df c \<longrightarrow> c @ ''_normalized'' \<notin> set (col_names ?out)"
    unfolding emit normalizable_iff by auto
  have part1: "c @ ''_normalized'' \<in> set (col_names ?out) \<and>
       column ?out (c @ ''_normalized'') = map (normalized ?dt mn mx) (column df c) \<and>
       Num mn \<in> set (column df c) \<and> Num mx \<in> set (column df c) \<and>
       (\<forall>v. Num v \<in> set (column df c) \<longrightarrow> mn \<le> v \<and> v \<le> mx) \<and>
       ((?dt = Int64 \<longrightarrow> list_all is_integer (nums (column df c)) \<and> mx - mn < 2 ^ 63) \<and>
        (?dt \<noteq> Int64 \<longrightarrow> mx - mn < 2 ^ 1024 - 2 ^ 970) \<longrightarrow>
          (\<forall>v. Num v \<in> set (column df c) \<longrightarrow>
             normalized ?dt mn mx (Num v) = Num ((v - mn) / (mx - mn)) \<and>
             0 \<le> (v - mn) / (mx - mn) \<and> (v - mn) / (mx - mn) \<le> 1) \<and>
          normalized ?dt mn mx (Num mn) = Num 0 \<and>
          normalized ?dt mn mx (Num mx) = Num 1 \<and>
          (\<forall>cell \<in> set (column ?out (c @ ''_normalized'')).
             cell = Missing \<or> (\<exists>x. cell = Num x \<and> 0 \<le> x \<and> x \<le> 1)))"
    if c3: "c \<in> set (take 3 (numeric_columns df))" and mn: "col_min df c = Some mn"
      and mx: "col_max df c = Some mx" and lt: "mn < mx"
  proof -
    have n: "normalizable df c" unfolding normalizable_iff using mn mx lt by blast
    have a: "c @ ''_normalized'' \<in> set (col_names ?out)" using emit c3 n by simp
    have "column ?out (c @ ''_normalized'') = normalized_column df c" using t(2) c3 n by blast
    then have b: "column ?out (c @ ''_normalized'') = map (normalized ?dt mn mx) (column df c)"
      by (simp add: normalized_column_def mn mx)
    have bounds: "mn \<le> v \<and> v \<le> mx" if "Num v \<in> set (column df c)" for v
      using col_min_least(2)[OF mn] col_max_greatest(2)[OF mx] that by (simp add: nums_mem)
    have m0: "Num mn \<in> set (column df c)" using col_min_least(1)[OF mn] by (simp add: nums_mem)
    have m1: "Num mx \<in> set (column df c)" using col_max_greatest(1)[OF mx] by (simp add: nums_mem)
    have vals: "(\<forall>v. Num v \<in> set (column df c) \<longrightarrow>
             normalized ?dt mn mx (Num v) = Num ((v - mn) / (mx - mn)) \<and>
             0 \<le> (v - mn) / (mx - mn) \<and> (v - mn) / (mx - mn) \<le> 1) \<and>
          normalized ?dt mn mx (Num mn) = Num 0 \<and>
          normalized ?dt mn mx (Num mx) = Num 1 \<and>
          (\<forall>cell \<in> set (column ?out (c @ ''_normalized'')).
             cell = Missing \<or> (\<exists>x. cell = Num x \<and> 0 \<le> x \<and> x \<le> 1))"
      if ri: "?dt = Int64 \<longrightarrow> list_all is_integer (nums (column df c)) \<and> mx - mn < 2 ^ 63"
        and rf: "?dt \<noteq> Int64 \<longrightarrow> mx - mn < 2 ^ 1024 - 2 ^ 970"
    proof -
      have ints: "?dt = Int64 \<longrightarrow> is_integer v \<and> is_integer mn \<and> is_integer mx \<and> mx - mn < 2 ^ 63"
        if "Num v \<in> set (column df c)" for v
        using ri that m0 m1 by (auto simp: list_all_iff nums_mem)
      have r: "normalized ?dt mn mx (Num v) = Num ((v - mn) / (mx - mn)) \<and>
             0 \<le> (v - mn) / (mx - mn) \<and> (v - mn) / (mx - mn) \<le> 1"
        if v: "Num v \<in> set (column df c)" for v
      proof -
        have bv: "mn \<le> v" "v \<le> mx" using bounds[OF v] by simp_all
        show ?thesis
          using normalized_exact[OF lt bv ints[OF v] rf] normalized_range[OF lt bv] by simp
      qed
      have z: "normalized ?dt mn mx (Num mn) = Num 0" using r[OF m0] by simp
      have o: "normalized ?dt mn mx (Num mx) = Num 1" using r[OF m1] lt by simp
      have cells: "cell = Missing \<or> (\<exists>x. cell = Num x \<and> 0 \<le> x \<and> x \<le> 1)"
        if "cell \<in> set (column ?out (c @ ''_normalized''))" for cell
      proof -
        from that obtain y where y: "y \<in> set (column df c)" and cell: "cell = normalized ?dt mn mx y"
          unfolding b by auto
        show ?thesis
        proof (cases y)
          case (Num v)
          with y r[of v] cell show ?thesis by simp
        next
          case (Str x)
          with cell show ?thesis by (simp add: normalized_def)
        next
          case Missing
          with cell show ?thesis by (simp add: normalized_def)
        qed
      qed
      from r z o cells show ?thesis by blast
    qed
    from a b m0 m1 bounds vals show ?thesis by blast
  qed
  from part1 part2 show ?thesis by blast
qed

lemma nums_simps:
  "nums [] = []" "nums (Num x # cs) = x # nums cs"
  "nums (Str t # cs) = nums cs" "nums (Missing # cs) = nums cs"
  by (simp_all add: nums_def List.map_filter_def)

lemma int64_extremes_facts:
  "well_formed int64_extremes" "derived_names_fresh int64_extremes"
  "take 3 (numeric_columns int64_extremes) = [''x'']"
  "column int64_extremes ''x'' = [Num (- 5000000000000000000), Num 0, Num 5000000000000000000]"
  "col_dtype int64_extremes ''x'' = Int64"
  by (simp_all add: int64_extremes_def well_formed_def derived_names_fresh_def col_names_def
        ncols_def numeric_columns_def is_number_def column_def col_index_def col_dtype_def)

lemma float64_extremes_facts:
  "well_formed float64_extremes" "derived_names_fresh float64_extremes"
  "take 3 (numeric_columns float64_extremes) = [''x'']"
  "column float64_extremes ''x'' = [Num (- (2 ^ 1023)), Num 0, Num (2 ^ 1023)]"
  "col_dtype float64_extremes ''x'' = Float64"
  by (simp_all add: float64_extremes_def well_formed_def derived_names_fresh_def col_names_def
        ncols_def numeric_columns_def is_number_def column_def col_index_def col_dtype_def)

lemma int64_extremes_extrema:
  "col_min int64_extremes ''x'' = Some (- 5000000000000000000)"
  "col_max int64_extremes ''x'' = Some 5000000000000000000"
  by (simp_all add: col_min_def col_max_def int64_extremes_facts(4) nums_simps)

lemma float64_extremes_extrema:
  "col_min float64_extremes ''x'' = Some (- (2 ^ 1023))"
  "col_max float64_extremes ''x'' = Some (2 ^ 1023)"
  by (simp_all add: col_min_def col_max_def float64_extremes_facts(4) nums_simps)

lemma int64_extremes_normalized:
  "normalized_column int64_extremes ''x'' =
     [Num 0, Num (5000000000000000000 / - 8446744073709551616), Num 1]"
  by (simp add: normalized_column_def int64_extremes_facts(4,5) int64_extremes_extrema
        normalized_def wrap64_def Let_def)

lemma float64_extremes_normalized:
  "normalized_column float64_extremes ''x'' = [Num 0, Num 0, Missing]"
  by (simp add: normalized_column_def float64_extremes_facts(4,5) float64_extremes_extrema
        normalized_def float_overflow_def)

text \<open>
  C6, as stated, fails where the range of a column overflows.  On the \<open>int64\<close> column
  \<open>-5e18, 0, 5e18\<close> the difference \<open>max - min\<close> wraps around to a negative number and
  the middle row gets a negative value; on the \<open>float64\<close> column \<open>-2^1023, 0, 2^1023\<close>
  the difference rounds to infinity, the middle row gets 0 and the maximum gets NaN.
\<close>

theorem normalization_overflows:
  "column (lambda_transform_data ''2024-01-01T00:00:00'' (\<lambda>r. 0) int64_extremes) ''x_normalized'' =
     [Num 0, Num (5000000000000000000 / - 8446744073709551616), Num 1] \<and>
   (5000000000000000000 / - 8446744073709551616 :: real) < 0 \<and>
   column (lambda_transform_data ''2024-01-01T00:00:00'' (\<lambda>r. 0) float64_extremes) ''x_normalized'' =
     [Num 0, Num 0, Missing]"
proof -
  have ni: "normalizable int64_extremes ''x''"
    by (simp add: normalizable_def int64_extremes_extrema)
  have nf: "normalizable float64_extremes ''x''"
    by (simp add: normalizable_def float64_extremes_extrema)
  have a: "column (lambda_transform_data ''2024-01-01T00:00:00'' (\<lambda>r. 0) int64_extremes) ''x_normalized'' =
             normalized_column int64_extremes ''x''"
    using transform_normalized_columns(2)[OF int64_extremes_facts(1,2),
            of "''2024-01-01T00:00:00''" "\<lambda>r. 0"] ni
    by (simp add: int64_extremes_facts(3))
  have b: "column (lambda_transform_data ''2024-01-01T00:00:00'' (\<lambda>r. 0) float64_extremes) ''x_normalized'' =
             normalized_column float64_extremes ''x''"
    using transform_normalized_columns(2)[OF float64_extremes_facts(1,2),
            of "''2024-01-01T00:00:00''" "\<lambda>r. 0"] nf
    by (simp add: float64_extremes_facts(3))
  show ?thesis
    unfolding a b int64_extremes_normalized float64_extremes_normalized by simp
qed

lemma four_numeric_facts:
  "well_formed four_numeric" "derived_names_fresh four_numeric"
  "col_names four_numeric = [''a'', ''name'', ''b'', ''c'', ''d'']"
  "take 3 (numeric_columns four_numeric) = [''a'', ''b'', ''c'']"
  "column four_numeric ''a'' = [Num 1, Num 2, Num 3]"
  "column four_numeric ''b'' = [Num 2, Num 2, Num 2]"
  "column four_numeric ''c'' = [Num (1 / 2), Num 1, Num (5 / 2)]"
  "col_dtype four_numeric ''a'' = Int64"
  "col_dtype four_numeric ''c'' = Float64"
  by (simp_all add: four_numeric_def well_formed_def derived_names_fresh_def col_names_def
        ncols_def numeric_columns_def is_number_def column_def col_index_def col_dtype_def)

lemma four_numeric_extrema:
  "col_min four_numeric ''a'' = Some 1" "col_max four_numeric ''a'' = Some 3"
  "col_min four_numeric ''b'' = Some 2" "col_max four_numeric ''b'' = Some 2"
  "col_min four_numeric ''c'' = Some (1 / 2)" "col_max four_numeric ''c'' = Some (5 / 2)"
  by (simp_all add: col_min_def col_max_def four_numeric_facts(5-7) nums_simps)

lemma four_numeric_quotients:
  "map (normalized Int64 1 3) [Num 1, Num 2, Num 3] = [Num 0, Num (1 / 2), Num 1]"
  "map (normalized Float64 (1 / 2) (5 / 2)) [Num (1 / 2), Num 1, Num (5 / 2)] =
     [Num 0, Num (1 / 4), Num 1]"
  by (simp_all add: normalized_def wrap64_def float_overflow_def Let_def)

theorem normalization_of_first_three_numeric_columns_witness:
  "well_formed four_numeric \<and> derived_names_fresh four_numeric \<and>
   set [''a'', ''b'', ''c'', ''d''] \<subseteq> set (col_names four_numeric) \<and>
   take 3 (numeric_columns four_numeric) = [''a'', ''b'', ''c''] \<and>
   col_min four_numeric ''a'' = Some 1 \<and> col_max four_numeric ''a'' = Some 3 \<and>
   col_dtype four_numeric ''a'' = Int64 \<and> list_all is_integer (nums (column four_numeric ''a'')) \<and>
   (3 - 1 :: real) < 2 ^ 63 \<and>
   col_min four_numeric ''c'' = Some (1 / 2) \<and> col_max four_numeric ''c'' = Some (5 / 2) \<and>
   col_dtype four_numeric ''c'' \<noteq> Int64 \<and> (5 / 2 - 1 / 2 :: real) < 2 ^ 1024 - 2 ^ 970 \<and>
   col_min four_numeric ''b'' = col_max four_numeric ''b'' \<and>
   ''d'' \<notin> set (take 3 (numeric_columns four_numeric)) \<and>
   column (lambda_transform_data ''2024-01-01T00:00:00'' (\<lambda>r. 0) four_numeric) ''a_normalized'' =
     [Num 0, Num (1 / 2), Num 1] \<and>
   column (lambda_transform_data ''2024-01-01T00:00:00'' (\<lambda>r. 0) four_numeric) ''c_normalized'' =
     [Num 0, Num (1 / 4), Num 1] \<and>
   ''b_normalized'' \<notin> set (col_names (lambda_transform_data ''2024-01-01T00:00:00'' (\<lambda>r. 0) four_numeric)) \<and>
   ''d_normalized'' \<notin> set (col_names (lambda_transform_data ''2024-01-01T00:00:00'' (\<lambda>r. 0) four_numeric))"
proof -
  have mem: "''a'' \<in> set (col_names four_numeric)" "''b'' \<in> set (col_names four_numeric)"
    "''c'' \<in> set (col_names four_numeric)" "''d'' \<in> set (col_names four_numeric)"
    by (simp_all add: four_numeric_facts(3))
  have ints: "list_all is_integer (nums (column four_numeric ''a''))"
    by (simp add: four_numeric_facts(5) nums_simps is_integer_def)
  note th = normalization_of_first_three_numeric_columns[OF four_numeric_facts(1,2)]
  have a: "column (lambda_transform_data ''2024-01-01T00:00:00'' (\<lambda>r. 0) four_numeric) ''a_normalized'' =
             map (normalized Int64 1 3) [Num 1, Num 2, Num 3] \<and>
           normalized Int64 1 3 (Num 1) = Num 0 \<and> normalized Int64 1 3 (Num 3) = Num 1"
    using th[OF mem(1), of 1 3 "''2024-01-01T00:00:00''" "\<lambda>r. 0"] ints
    by (simp add: four_numeric_facts four_numeric_extrema)
  have c: "column (lambda_transform_data ''2024-01-01T00:00:00'' (\<lambda>r. 0) four_numeric) ''c_normalized'' =
             map (normalized Float64 (1 / 2) (5 / 2)) [Num (1 / 2), Num 1, Num (5 / 2)] \<and>
           normalized Float64 (1 / 2) (5 / 2) (Num (1 / 2)) = Num 0 \<and>
           normalized Float64 (1 / 2) (5 / 2) (Num (5 / 2)) = Num 1"
    using th[OF mem(3), of "1 / 2" "5 / 2" "''2024-01-01T00:00:00''" "\<lambda>r. 0"]
    by (simp add: four_numeric_facts four_numeric_extrema)
  have b: "''b_normalized'' \<notin> set (col_names (lambda_transform_data ''2024-01-01T00:00:00'' (\<lambda>r. 0) four_numeric))"
    using th[OF mem(2), of 0 0 "''2024-01-01T00:00:00''" "\<lambda>r. 0"]
    by (simp add: four_numeric_extrema)
  have d: "''d_normalized'' \<notin> set (col_names (lambda_transform_data ''2024-01-01T00:00:00'' (\<lambda>r. 0) four_numeric))"
    using th[OF mem(4), of 0 0 "''2024-01-01T00:00:00''" "\<lambda>r. 0"]
    by (simp add: four_numeric_facts(4))
  have a': "column (lambda_transform_data ''2024-01-01T00:00:00'' (\<lambda>r. 0) four_numeric) ''a_normalized'' = [Num 0, Num (1 / 2), Num 1]"
    using a by (simp only: four_numeric_quotients)
  have c': "column (lambda_transform_data ''2024-01-01T00:00:00'' (\<lambda>r. 0) four_numeric) ''c_normalized'' = [Num 0, Num (1 / 4), Num 1]"
    using c by (simp only: four_numeric_quotients)
  show ?thesis
    using a' b c' d ints by (simp add: four_numeric_facts four_numeric_extrema)
qed


subsection \<open>Colliding labels\<close>

text \<open>
  The condition on the labels is needed.  Where a numeric column already carries the
  label \<open>a_normalized\<close> of a derived column, the loop overwrites it with the normalised
  values of \<open>a\<close> and then normalises what it has just written: the result has a column
  \<open>a_normalized_normalized\<close> although the column \<open>a_normalized\<close> of the input is constant.
\<close>

lemma colliding_labels_numeric_columns:
  "numeric_columns colliding_labels = [''a'', ''a_normalized'']"
  by (simp add: colliding_labels_def numeric_columns_def is_number_def)

lemma colliding_labels_add_aggregates:
  "add_aggregates colliding_labels [''a'', ''a_normalized''] =
     \<lparr>df_columns = [(''a'', Int64), (''a_normalized'', Int64), (''numeric_sum'', Int64),
                    (''numeric_mean'', Float64), (''numeric_std'', Float64)],
      df_rows = [[Num 1, Num 5, Num 6, Num 3, np_std [1, 5]],
                 [Num 2, Num 5, Num 7, Num (7 / 2), np_std [2, 5]]]\<rparr>"
  by (simp add: colliding_labels_def add_aggregates_def eval_defs
        np_sum_def np_mean_def sum_dtype_def)

lemma colliding_labels_add_normalized:
  "add_normalized
     \<lparr>df_columns = [(''a'', Int64), (''a_normalized'', Int64), (''numeric_sum'', Int64),
                    (''numeric_mean'', Float64), (''numeric_std'', Float64)],
      df_rows = [[Num 1, Num 5, Num 6, Num 3, s1],
                 [Num 2, Num 5, Num 7, Num (7 / 2), s2]]\<rparr> [''a'', ''a_normalized''] =
     \<lparr>df_columns = [(''a'', Int64), (''a_normalized'', Float64), (''numeric_sum'', Int64),
                    (''numeric_mean'', Float64), (''numeric_std'', Float64),
                    (''a_normalized_normalized'', Float64)],
      df_rows = [[Num 1, Num 0, Num 6, Num 3, s1, Num 0],
                 [Num 2, Num 1, Num 7, Num (7 / 2), s2, Num 1]]\<rparr>"
  by (simp add: add_normalized_def normalize_column_def normalized_def col_dtype_def
        float_overflow_def wrap64_def col_min_def col_max_def eval_defs)

lemma normalization_label_collision:
  "col_min colliding_labels ''a_normalized'' = Some 5 \<and>
   col_max colliding_labels ''a_normalized'' = Some 5 \<and>
   ''a_normalized_normalized'' \<in> set (col_names (lambda_transform_data now hash_row colliding_labels)) \<and>
   column (lambda_transform_data now hash_row colliding_labels) ''a_normalized'' = [Num 0, Num 1] \<and>
   column (lambda_transform_data now hash_row colliding_labels) ''a_normalized_normalized'' =
     [Num 0, Num 1]"
proof -
  have m: "col_min colliding_labels ''a_normalized'' = Some 5"
    "col_max colliding_labels ''a_normalized'' = Some 5"
    by (simp_all add: colliding_labels_def col_min_def col_max_def eval_defs)
  have t: "lambda_transform_data now hash_row colliding_labels =
     add_metadata now hash_row
     \<lparr>df_columns = [(''a'', Int64), (''a_normalized'', Float64), (''numeric_sum'', Int64),
                    (''numeric_mean'', Float64), (''numeric_std'', Float64),
                    (''a_normalized_normalized'', Float64)],
      df_rows = [[Num 1, Num 0, Num 6, Num 3, np_std [1, 5], Num 0],
                 [Num 2, Num 1, Num 7, Num (7 / 2), np_std [2, 5], Num 1]]\<rparr>"
    by (simp add: lambda_transform_data_def colliding_labels_numeric_columns
          colliding_labels_add_aggregates colliding_labels_add_normalized)
  show ?thesis unfolding t by (simp add: m add_metadata_def eval_defs)
qed


section \<open>Row-wise standard deviation\<close>

lemma length_nums: "length (nums cs) \<le> length cs"
  by (simp add: nums_def List.map_filter_def)

lemma np_std_single_column:
  assumes "length cols \<le> 1"
  shows "np_std (row_nums df cols r) = Missing"
proof -
  have "length (row_nums df cols r) \<le> length cols"
    unfolding row_nums_def using length_nums[of "map (\<lambda>n. r ! col_index df n) cols"] by simp
  with assms show ?thesis by (simp add: np_std_def)
qed

text \<open>
  C7.  The claim asks for a defined \<open>numeric_std\<close> in every row, also with exactly one
  numeric column.  The code takes the sample standard deviation, which divides by the
  number of values less one: on \<open>one_numeric\<close>, whose only numeric column is \<open>x\<close>, the
  sum and the mean are the numbers of \<open>x\<close>, and \<open>numeric_std\<close> is missing (NaN) in
  every row.
\<close>

theorem numeric_std_undefined_for_one_numeric_column:
  "numeric_columns one_numeric = [''x''] \<and>
   column (lambda_transform_data ''2024-01-01T00:00:00'' (\<lambda>r. 0) one_numeric) ''numeric_sum'' =
     [Num 1, Num 3] \<and>
   column (lambda_transform_data ''2024-01-01T00:00:00'' (\<lambda>r. 0) one_numeric) ''numeric_mean'' =
     [Num 1, Num 3] \<and>
   column (lambda_transform_data ''2024-01-01T00:00:00'' (\<lambda>r. 0) one_numeric) ''numeric_std'' =
     [Missing, Missing]"
  unfolding one_numeric_lambda_transform_data
  by (simp add: one_numeric_numeric_columns one_numeric_transformed_def column_def col_index_def
        col_names_def)


section \<open>Parsing of the row limit\<close>

lemma upper_char_space: "is_space c \<Longrightarrow> upper_char c = c"
  by (auto simp: is_space_def upper_char_def Let_def)

lemma is_space_upper_char: "is_space (upper_char c) = is_space c"
  by (auto simp: is_space_def upper_char_def Let_def)

lemma upper_char_digit: "is_digit c \<Longrightarrow> upper_char c = c"
  by (auto simp: is_digit_def upper_char_def Let_def)

lemma str_upper_append: "str_upper (xs @ ys) = str_upper xs @ str_upper ys"
  by (simp add: str_upper_def)

lemma str_upper_spaces: "list_all is_space sp \<Longrightarrow> str_upper sp = sp"
  by (induction sp) (simp_all add: str_upper_def upper_char_space)

lemma str_upper_digits: "list_all is_digit w \<Longrightarrow> str_upper w = w"
  by (induction w) (simp_all add: str_upper_def upper_char_digit)

lemma LIMIT_not_space: "list_all (\<lambda>c. \<not> is_space c) ''LIMIT''"
  by (simp add: is_space_def)

lemma length_LIMIT: "length ''LIMIT'' = 5"
  by simp

lemma find_first_Some:
  "find_first sep s = Some i \<Longrightarrow> starts_with (drop i s) sep \<and> i \<le> length s"
proof (induction s arbitrary: i)
  case Nil
  then show ?case by (auto simp: starts_with_def split: if_splits)
next
  case (Cons c cs)
  show ?case
  proof (cases "starts_with (c # cs) sep")
    case True
    with Cons.prems show ?thesis by simp
  next
    case False
    with Cons.prems obtain j where j: "find_first sep cs = Some j" "i = Suc j" by auto
    from Cons.IH[OF j(1)] j(2) show ?thesis by simp
  qed
qed

lemma find_first_None:
  "find_first sep s = None \<Longrightarrow> \<not> starts_with (drop j s) sep"
proof (induction s arbitrary: j)
  case Nil
  then show ?case by (auto simp: starts_with_def split: if_splits)
next
  case (Cons c cs)
  then have a: "\<not> starts_with (c # cs) sep" and b: "find_first sep cs = None"
    by (auto split: if_splits)
  show ?case
  proof (cases j)
    case 0
    with a show ?thesis by simp
  next
    case (Suc k)
    with Cons.IH[OF b, of k] show ?thesis by simp
  qed
qed

lemma find_first_at:
  assumes "\<forall>j < length p. \<not> starts_with (drop j (p @ r)) sep" "starts_with r sep"
  shows "find_first sep (p @ r) = Some (length p)"
  using assms
proof (induction p)
  case Nil
  then show ?case by (cases r) (auto simp: starts_with_def)
next
  case (Cons c p)
  have n0: "\<not> starts_with ((c # p) @ r) sep" using Cons.prems(1)[rule_format, of 0] by simp
  have "\<forall>j < length p. \<not> starts_with (drop j (p @ r)) sep"
  proof (intro allI impI)
    fix j assume "j < length p"
    then show "\<not> starts_with (drop j (p @ r)) sep"
      using Cons.prems(1)[rule_format, of "Suc j"] by simp
  qed
  from Cons.IH[OF this Cons.prems(2)] n0 show ?case by simp
qed

lemma find_first_ge:
  assumes "\<forall>j < n. \<not> starts_with (drop j s) sep" "find_first sep s = Some i"
  shows "n \<le> i"
proof (rule ccontr)
  assume "\<not> n \<le> i"
  then have "i < n" by simp
  with assms(1) find_first_Some[OF assms(2)] show False by blast
qed


lemma starts_with_head:
  "starts_with (c # cs) (p # ps) \<Longrightarrow> c = p"
  by (simp add: starts_with_def)

lemma starts_with_LIMIT_nth:
  assumes "starts_with X ''LIMIT''"
  shows "5 \<le> length X" and "X ! 4 = CHR ''T''"
proof -
  have t: "take 5 X = ''LIMIT''" using assms unfolding starts_with_def length_LIMIT .
  have "length (take 5 X) = 5" unfolding t by simp
  then show l: "5 \<le> length X" by simp
  have "X ! 4 = take 5 X ! 4" by simp
  then show "X ! 4 = CHR ''T''" unfolding t by simp
qed

lemma no_straddle:
  assumes none: "\<not> str_contains P ''LIMIT''"
  shows "\<forall>j < length P. \<not> starts_with (drop j (P @ ''LIMIT'' @ R)) ''LIMIT''"
proof (intro allI impI notI)
  fix j assume j: "j < length P"
    and st: "starts_with (drop j (P @ ''LIMIT'' @ R)) ''LIMIT''"
  define D where "D = drop j P"
  have X: "drop j (P @ ''LIMIT'' @ R) = D @ ''LIMIT'' @ R" using j by (simp add: D_def)
  have f: "find_first ''LIMIT'' P = None" using none by (simp add: str_contains_def)
  have nD: "\<not> starts_with D ''LIMIT''" unfolding D_def by (rule find_first_None[OF f])
  have lD: "0 < length D" using j by (simp add: D_def)
  have T: "(D @ ''LIMIT'' @ R) ! 4 = CHR ''T''"
    using starts_with_LIMIT_nth(2)[OF st[unfolded X]] .
  show False
  proof (cases "5 \<le> length D")
    case True
    have "take 5 (D @ ''LIMIT'' @ R) = take 5 D" using True by simp
    with st[unfolded X] have "starts_with D ''LIMIT''" by (simp add: starts_with_def)
    with nD show False ..
  next
    case False
    with lD consider "length D = 1" | "length D = 2" | "length D = 3" | "length D = 4"
      by linarith
    then show False
    proof cases
      case 1 with T show False by (simp add: nth_append)
    next
      case 2 with T show False by (simp add: nth_append)
    next
      case 3 with T show False by (simp add: nth_append)
    next
      case 4 with T show False by (simp add: nth_append)
    qed
  qed
qed

lemma str_split_step:
  assumes "sep \<noteq> []" "find_first sep s = Some i"
  shows "str_split sep s = take i s # str_split sep (drop (i + length sep) s)"
  using assms by (subst str_split.simps) simp

lemma str_split_hd:
  assumes "sep \<noteq> []"
  shows "str_split sep s \<noteq> [] \<and>
         str_split sep s ! 0 = (case find_first sep s of None \<Rightarrow> s | Some i \<Rightarrow> take i s)"
  using assms by (subst (1 2) str_split.simps) (simp split: option.splits)

lemma second_piece:
  assumes pre: "\<not> str_contains P ''LIMIT''"
  shows "find_first ''LIMIT'' (P @ ''LIMIT'' @ S) = Some (length P)"
    and "2 \<le> length (str_split ''LIMIT'' (P @ ''LIMIT'' @ S))"
    and "str_split ''LIMIT'' (P @ ''LIMIT'' @ S) ! 1 =
           (case find_first ''LIMIT'' S of None \<Rightarrow> S | Some i \<Rightarrow> take i S)"
proof -
  have st: "starts_with (''LIMIT'' @ S) ''LIMIT''" by (simp add: starts_with_def)
  show f: "find_first ''LIMIT'' (P @ ''LIMIT'' @ S) = Some (length P)"
    by (rule find_first_at[OF no_straddle[OF pre] st])
  have e: "str_split ''LIMIT'' (P @ ''LIMIT'' @ S) = P # str_split ''LIMIT'' S"
    using str_split_step[OF _ f] by simp
  have h: "str_split ''LIMIT'' S \<noteq> [] \<and>
         str_split ''LIMIT'' S ! 0 = (case find_first ''LIMIT'' S of None \<Rightarrow> S | Some i \<Rightarrow> take i S)"
    by (rule str_split_hd) simp
  from h show "2 \<le> length (str_split ''LIMIT'' (P @ ''LIMIT'' @ S))"
    unfolding e by (cases "str_split ''LIMIT'' S") simp_all
  from h show "str_split ''LIMIT'' (P @ ''LIMIT'' @ S) ! 1 =
           (case find_first ''LIMIT'' S of None \<Rightarrow> S | Some i \<Rightarrow> take i S)"
    unfolding e by simp
qed


lemma split_ws_leading: "list_all is_space sp \<Longrightarrow> split_ws [] (sp @ X) = split_ws [] X"
  by (induction sp) simp_all

lemma split_ws_word:
  "list_all (\<lambda>c. \<not> is_space c) W \<Longrightarrow> split_ws cur (W @ X) = split_ws (rev W @ cur) X"
  by (induction W arbitrary: cur) simp_all

lemma split_ws_after_word:
  assumes "cur \<noteq> []" "Q = [] \<or> is_space (hd Q)"
  shows "\<exists>rest. split_ws cur Q = rev cur # rest"
  using assms by (cases Q) auto

lemma first_word:
  assumes "list_all is_space sp" "W \<noteq> []" "list_all (\<lambda>c. \<not> is_space c) W"
    "Q = [] \<or> is_space (hd Q)"
  shows "\<exists>rest. split_ws [] (sp @ W @ Q) = W # rest"
proof -
  have "split_ws [] (sp @ W @ Q) = split_ws (rev W) Q"
    using assms(1,3) by (simp add: split_ws_leading split_ws_word)
  moreover have "\<exists>rest. split_ws (rev W) Q = rev (rev W) # rest"
    using assms(2,4) by (intro split_ws_after_word) simp_all
  ultimately show ?thesis by simp
qed

lemma split_ws_all_space:
  "list_all is_space s \<Longrightarrow> split_ws cur s = (if cur = [] then [] else [rev cur])"
  by (induction s arbitrary: cur) simp_all

lemma rstrip_Cons:
  "rev (dropWhile is_space (rev (c # cs))) =
     (if list_all is_space (c # cs) then [] else c # rev (dropWhile is_space (rev cs)))"
  by (auto simp: dropWhile_append list_all_iff)

lemma split_ws_rstrip: "split_ws cur (rev (dropWhile is_space (rev s))) = split_ws cur s"
proof (induction s arbitrary: cur)
  case Nil
  show ?case by simp
next
  case (Cons c cs)
  show ?case
  proof (cases "list_all is_space (c # cs)")
    case True
    then show ?thesis
      by (simp only: rstrip_Cons if_True split_ws_all_space[OF True]) simp
  next
    case False
    then have e: "rev (dropWhile is_space (rev (c # cs))) = c # rev (dropWhile is_space (rev cs))"
      by (simp only: rstrip_Cons if_False)
    show ?thesis unfolding e by (simp add: Cons.IH)
  qed
qed

lemma split_ws_dropWhile: "split_ws [] (dropWhile is_space s) = split_ws [] s"
  by (induction s) simp_all

lemma split_ws_strip: "split_ws [] (strip s) = split_ws [] s"
  by (simp add: strip_def split_ws_rstrip split_ws_dropWhile)

lemma piece_mid:
  assumes M: "\<not> str_contains M ''LIMIT''" and R: "R = [] \<or> starts_with R ''LIMIT''"
  shows "(case find_first ''LIMIT'' (M @ R) of None \<Rightarrow> M @ R | Some i \<Rightarrow> take i (M @ R)) = M"
proof (cases "R = []")
  case True
  have "find_first ''LIMIT'' M = None" using M by (simp add: str_contains_def)
  then show ?thesis using True by simp
next
  case False
  with R have st: "starts_with R ''LIMIT''" by simp
  then have "R = ''LIMIT'' @ drop 5 R"
    unfolding starts_with_def by (metis append_take_drop_id length_LIMIT)
  then obtain R' where R': "R = ''LIMIT'' @ R'" ..
  have "\<forall>j < length M. \<not> starts_with (drop j (M @ R)) ''LIMIT''"
    unfolding R' by (rule no_straddle[OF M])
  from find_first_at[OF this st] show ?thesis by simp
qed

lemma digits_acc_digits:
  "list_all is_digit ds \<Longrightarrow>
   digits_acc acc ds = Some (foldl (\<lambda>a c. 10 * a + digit_val c) acc ds)"
  by (induction ds arbitrary: acc) simp_all

lemma filter_digits: "list_all is_digit w \<Longrightarrow> filter is_digit w = w"
  by (induction w) simp_all

lemma py_int_digits:
  assumes "w \<noteq> []" "list_all is_digit w" "length w \<le> 4300"
  shows "py_int w = Some (int (decimal w))"
proof -
  obtain d ds where w: "w = d # ds" using assms(1) by (cases w) auto
  have d: "is_digit d" and ds: "list_all is_digit ds" using assms(2) w by simp_all
  have np: "d \<noteq> CHR ''+''" "d \<noteq> CHR ''-''" using d by (auto simp: is_digit_def)
  have lim: "\<not> max_str_digits < length (filter is_digit w)"
    using assms(3) by (simp add: filter_digits[OF assms(2)] max_str_digits_def)
  have "parse_nat w = Some (decimal w)"
    using d by (simp add: w parse_nat_def digits_acc_digits[OF ds] decimal_def)
  then show ?thesis using np lim unfolding py_int_def by (simp add: w)
qed

lemma head_nonneg: "head (int n) df = df\<lparr>df_rows := take n (df_rows df)\<rparr>"
  by (simp add: head_def)


section \<open>The row limit of \<open>execute_query\<close>\<close>

lemma parse_limit_pieces:
  assumes kw: "str_upper kw = ''LIMIT''"
    and pre: "\<not> str_contains (str_upper pre) ''LIMIT''"
    and mid: "\<not> str_contains (str_upper mid) ''LIMIT''"
    and rest: "rest = [] \<or> starts_with (str_upper rest) ''LIMIT''"
  shows "str_contains (str_upper (pre @ kw @ mid @ rest)) ''LIMIT''"
    and "parse_limit (pre @ kw @ mid @ rest) =
           (case split_ws [] (str_upper mid) of [] \<Rightarrow> None | w # ws \<Rightarrow> py_int w)"
proof -
  let ?P = "str_upper pre" and ?M = "str_upper mid" and ?R = "str_upper rest"
  have U: "str_upper (pre @ kw @ mid @ rest) = ?P @ ''LIMIT'' @ (?M @ ?R)"
    by (simp only: str_upper_append kw)
  have R: "?R = [] \<or> starts_with ?R ''LIMIT''"
    using rest by (auto simp: str_upper_def)
  note sec = second_piece[OF pre, of "?M @ ?R"]
  show "str_contains (str_upper (pre @ kw @ mid @ rest)) ''LIMIT''"
    unfolding U str_contains_def using sec(1) by simp
  have p1: "str_split ''LIMIT'' (?P @ ''LIMIT'' @ (?M @ ?R)) ! 1 = ?M"
    using sec(3) piece_mid[OF mid R] by simp
  have l: "\<not> length (str_split ''LIMIT'' (?P @ ''LIMIT'' @ (?M @ ?R))) < 2" using sec(2) by simp
  show "parse_limit (pre @ kw @ mid @ rest) =
           (case split_ws [] (str_upper mid) of [] \<Rightarrow> None | w # ws \<Rightarrow> py_int w)"
    unfolding parse_limit_def U Let_def
    by (simp only: l if_False p1 split_ws_strip)
qed

lemma first_word_upper:
  assumes sp: "list_all is_space sp"
    and w: "w \<noteq> []" "list_all (\<lambda>c. \<not> is_space c) w"
    and post: "post = [] \<or> is_space (hd post)"
  shows "\<exists>ws. split_ws [] (str_upper (sp @ w @ post)) = str_upper w # ws"
proof -
  let ?W = "str_upper w" and ?Q = "str_upper post"
  have U: "str_upper (sp @ w @ post) = sp @ ?W @ ?Q"
    by (simp only: str_upper_append str_upper_spaces[OF sp])
  have W1: "?W \<noteq> []" using w(1) by (simp add: str_upper_def)
  have W2: "list_all (\<lambda>c. \<not> is_space c) ?W"
    using w(2) by (simp add: str_upper_def list_all_iff is_space_upper_char)
  have Q: "?Q = [] \<or> is_space (hd ?Q)"
    using post by (cases post) (auto simp: str_upper_def is_space_upper_char)
  show ?thesis unfolding U by (rule first_word[OF sp W1 W2 Q])
qed

lemma no_word_upper:
  assumes "list_all is_space mid"
  shows "split_ws [] (str_upper mid) = []"
  by (simp only: str_upper_spaces[OF assms] split_ws_all_space[OF assms]) simp

lemma execute_query_registered:
  assumes "tables a table_name = Some df"
  shows "snd (execute_query a now query table_name) =
           (if str_contains (str_upper query) ''LIMIT''
            then (case parse_limit query of Some limit \<Rightarrow> head limit df | None \<Rightarrow> df)
            else df)"
  by (simp add: execute_query_def assms Let_def)

text \<open>
  C9, amended.  Let a dataset be registered under the table name (as \<open>setup_query\<close> does),
  and let the query text consist of ASCII characters and be \<open>pre @ kw @ mid @ rest\<close>,
  where \<open>kw\<close> spells LIMIT in any mix of cases and is the first occurrence of that
  substring in the text, \<open>mid\<close> holds no occurrence of it, and \<open>rest\<close> is empty or starts
  with the next occurrence.  The code reads the first whitespace-delimited word \<open>w\<close> of
  \<open>mid\<close> (\<open>mid = sp @ w @ post\<close> with \<open>sp\<close> whitespace, possibly none, \<open>w\<close> non-empty and
  free of whitespace, \<open>post\<close> empty or starting with whitespace) as \<open>int\<close> does.  If \<open>w\<close>
  consists of at most 4300 decimal digits, the result is the registered dataset cut to
  its first \<open>decimal w\<close> rows, with its columns and the values of those rows unchanged
  (the whole dataset when the number exceeds its row count).  In general, if \<open>int\<close>
  reads \<open>w\<close> as the integer \<open>n\<close> (an optional sign, digits, single underscores between
  digits), the result is the first \<open>n\<close> rows for \<open>n \<ge> 0\<close> and all rows but the last
  \<open>-n\<close> for \<open>n < 0\<close>.  If \<open>int\<close> refuses \<open>w\<close>, or \<open>mid\<close> is nothing but whitespace, or
  the query text holds no occurrence of the substring at all, the result is the
  registered dataset, whole.
\<close>

theorem execute_query_limit_directive:
  assumes "tables a table_name = Some df"
    and "list_all is_ascii (pre @ kw @ mid @ rest)"
    and "str_upper kw = ''LIMIT''"
    and "\<not> str_contains (str_upper pre) ''LIMIT''"
    and "\<not> str_contains (str_upper mid) ''LIMIT''"
    and "rest = [] \<or> starts_with (str_upper rest) ''LIMIT''"
  shows "(mid = sp @ w @ post \<and> list_all is_space sp \<and> w \<noteq> [] \<and>
          list_all (\<lambda>c. \<not> is_space c) w \<and> (post = [] \<or> is_space (hd post)) \<longrightarrow>
            (list_all is_digit w \<and> length w \<le> 4300 \<longrightarrow>
               snd (execute_query a now (pre @ kw @ mid @ rest) table_name) =
                 df\<lparr>df_rows := take (decimal w) (df_rows df)\<rparr>) \<and>
            (\<forall>n. py_int (str_upper w) = Some n \<longrightarrow>
               (0 \<le> n \<longrightarrow>
                  snd (execute_query a now (pre @ kw @ mid @ rest) table_name) =
                    df\<lparr>df_rows := take (nat n) (df_rows df)\<rparr>) \<and>
               (n < 0 \<longrightarrow>
                  snd (execute_query a now (pre @ kw @ mid @ rest) table_name) =
                    df\<lparr>df_rows := take (length (df_rows df) - nat (- n)) (df_rows df)\<rparr>)) \<and>
            (py_int (str_upper w) = None \<longrightarrow>
               snd (execute_query a now (pre @ kw @ mid @ rest) table_name) = df)) \<and>
         (list_all is_space mid \<longrightarrow>
            snd (execute_query a now (pre @ kw @ mid @ rest) table_name) = df) \<and>
         (list_all is_ascii query \<and> \<not> str_contains (str_upper query) ''LIMIT'' \<longrightarrow>
            snd (execute_query a now query table_name) = df)"
proof (intro conjI impI)
  note pl = parse_limit_pieces[OF assms(3-6)]
  have r: "snd (execute_query a now (pre @ kw @ mid @ rest) table_name) =
             (case (case split_ws [] (str_upper mid) of [] \<Rightarrow> None | w # ws \<Rightarrow> py_int w) of
                Some limit \<Rightarrow> head limit df | None \<Rightarrow> df)"
    unfolding execute_query_registered[OF assms(1)] using pl by simp
  {
    assume h: "mid = sp @ w @ post \<and> list_all is_space sp \<and> w \<noteq> [] \<and>
          list_all (\<lambda>c. \<not> is_space c) w \<and> (post = [] \<or> is_space (hd post))"
    then obtain ws where "split_ws [] (str_upper mid) = str_upper w # ws"
      using first_word_upper[of sp w post] by auto
    with r have rw: "snd (execute_query a now (pre @ kw @ mid @ rest) table_name) =
             (case py_int (str_upper w) of Some limit \<Rightarrow> head limit df | None \<Rightarrow> df)"
      by simp
    {
      assume d: "list_all is_digit w \<and> length w \<le> 4300"
      have "py_int (str_upper w) = Some (int (decimal w))"
        using py_int_digits[of w] h d by (simp add: str_upper_digits)
      with rw show "snd (execute_query a now (pre @ kw @ mid @ rest) table_name) =
                 df\<lparr>df_rows := take (decimal w) (df_rows df)\<rparr>"
        by (simp add: head_nonneg)
    }
    show "\<forall>n. py_int (str_upper w) = Some n \<longrightarrow>
               (0 \<le> n \<longrightarrow>
                  snd (execute_query a now (pre @ kw @ mid @ rest) table_name) =
                    df\<lparr>df_rows := take (nat n) (df_rows df)\<rparr>) \<and>
               (n < 0 \<longrightarrow>
                  snd (execute_query a now (pre @ kw @ mid @ rest) table_name) =
                    df\<lparr>df_rows := take (length (df_rows df) - nat (- n)) (df_rows df)\<rparr>)"
      using rw by (simp add: head_def)
    {
      assume "py_int (str_upper w) = None"
      with rw show "snd (execute_query a now (pre @ kw @ mid @ rest) table_name) = df" by simp
    }
  }
  {
    assume "list_all is_space mid"
    from r no_word_upper[OF this]
    show "snd (execute_query a now (pre @ kw @ mid @ rest) table_name) = df" by simp
  }
  {
    assume "list_all is_ascii query \<and> \<not> str_contains (str_upper query) ''LIMIT''"
    then show "snd (execute_query a now query table_name) = df"
      unfolding execute_query_registered[OF assms(1)] by simp
  }
qed


lemma parse_limit_earlier_substring: "parse_limit ''SELECT * FROM limits LIMIT 2'' = None" by code_simp
lemma contains_limit_earlier_substring: "str_contains (str_upper ''SELECT * FROM limits LIMIT 2'') ''LIMIT''" by code_simp

text \<open>
  C9, as stated, fails: the code reads the word after the first occurrence of the
  substring LIMIT, so a LIMIT token that follows an earlier occurrence (here inside the
  table name \<open>limits\<close>) is not recognized, and all ten rows are returned.
\<close>

theorem execute_query_misses_later_limit:
  "snd (execute_query (athena (aws (fst (setup_query ''2024-01-01T00:00:00'' PipelineOrchestrator_init ten_rows))))
          ''2024-01-01T00:00:01'' ''SELECT * FROM limits LIMIT 2'' ''pipeline_data'') = ten_rows \<and>
   len ten_rows = 10"
  by (simp add: execute_query_def setup_query_def store_data_def Let_def parse_limit_earlier_substring
        contains_limit_earlier_substring len_def ten_rows_def)

theorem execute_query_limit_directive_witness:
  "tables ten_rows_registered ''pipeline_data'' = Some ten_rows \<and>
   list_all is_ascii ''SELECT * limit 2'' \<and>
   str_upper ''limit'' = ''LIMIT'' \<and>
   \<not> str_contains (str_upper ''SELECT * '') ''LIMIT'' \<and>
   \<not> str_contains (str_upper '' 2'') ''LIMIT'' \<and>
   list_all is_space '' '' \<and>
   list_all (\<lambda>c. \<not> is_space c) ''2'' \<and>
   list_all is_digit ''2'' \<and>
   length ''2'' \<le> 4300 \<and>
   decimal ''2'' = 2 \<and>
   snd (execute_query ten_rows_registered ''2024-01-01T00:00:01'' ''SELECT * limit 2'' ''pipeline_data'') =
     \<lparr>df_columns = [(''id'', Int64), (''name'', Object)],
      df_rows = [[Num 0, Str ''n''], [Num 1, Str ''n'']]\<rparr> \<and>
   list_all is_ascii ''SELECT * LIMIT 2LIMIT'' \<and>
   str_upper ''LIMIT'' = ''LIMIT'' \<and>
   starts_with (str_upper ''LIMIT'') ''LIMIT'' \<and>
   snd (execute_query ten_rows_registered ''2024-01-01T00:00:01'' ''SELECT * LIMIT 2LIMIT'' ''pipeline_data'') =
     \<lparr>df_columns = [(''id'', Int64), (''name'', Object)],
      df_rows = [[Num 0, Str ''n''], [Num 1, Str ''n'']]\<rparr> \<and>
   list_all is_ascii ''SELECT * Limit -3'' \<and>
   str_upper ''Limit'' = ''LIMIT'' \<and>
   \<not> str_contains (str_upper '' -3'') ''LIMIT'' \<and>
   list_all (\<lambda>c. \<not> is_space c) ''-3'' \<and>
   py_int (str_upper ''-3'') = Some (- 3) \<and>
   snd (execute_query ten_rows_registered ''2024-01-01T00:00:01'' ''SELECT * Limit -3'' ''pipeline_data'') =
     ten_rows\<lparr>df_rows := take 7 (df_rows ten_rows)\<rparr> \<and>
   list_all is_ascii ''select * limit  +4 offset 1'' \<and>
   \<not> str_contains (str_upper ''select * '') ''LIMIT'' \<and>
   \<not> str_contains (str_upper ''  +4 offset 1'') ''LIMIT'' \<and>
   list_all is_space ''  '' \<and>
   list_all (\<lambda>c. \<not> is_space c) ''+4'' \<and>
   ('' offset 1'' = [] \<or> is_space (hd '' offset 1'')) \<and>
   py_int (str_upper ''+4'') = Some (4) \<and>
   snd (execute_query ten_rows_registered ''2024-01-01T00:00:01'' ''select * limit  +4 offset 1'' ''pipeline_data'') =
     ten_rows\<lparr>df_rows := take 4 (df_rows ten_rows)\<rparr> \<and>
   list_all is_ascii ''SELECT * limit 0_3'' \<and>
   \<not> str_contains (str_upper '' 0_3'') ''LIMIT'' \<and>
   list_all (\<lambda>c. \<not> is_space c) ''0_3'' \<and>
   py_int (str_upper ''0_3'') = Some (3) \<and>
   snd (execute_query ten_rows_registered ''2024-01-01T00:00:01'' ''SELECT * limit 0_3'' ''pipeline_data'') =
     ten_rows\<lparr>df_rows := take 3 (df_rows ten_rows)\<rparr> \<and>
   list_all is_ascii ''SELECT * limit 2;'' \<and>
   \<not> str_contains (str_upper '' 2;'') ''LIMIT'' \<and>
   list_all (\<lambda>c. \<not> is_space c) ''2;'' \<and>
   py_int (str_upper ''2;'') = None \<and>
   snd (execute_query ten_rows_registered ''2024-01-01T00:00:01'' ''SELECT * limit 2;'' ''pipeline_data'') = ten_rows \<and>
   list_all is_ascii ''SELECT * limit  '' \<and>
   \<not> str_contains (str_upper ''  '') ''LIMIT'' \<and>
   snd (execute_query ten_rows_registered ''2024-01-01T00:00:01'' ''SELECT * limit  '' ''pipeline_data'') = ten_rows \<and>
   list_all is_ascii ''SELECT *'' \<and>
   \<not> str_contains (str_upper ''SELECT *'') ''LIMIT'' \<and>
   snd (execute_query ten_rows_registered ''2024-01-01T00:00:01'' ''SELECT *'' ''pipeline_data'') = ten_rows \<and>
   len ten_rows = 10"
proof -
  define two_rows where "two_rows =
     \<lparr>df_columns = [(''id'', Int64), (''name'', Object)],
      df_rows = [[Num 0, Str ''n''], [Num 1, Str ''n'']]\<rparr>"
  have t2: "ten_rows\<lparr>df_rows := take 2 (df_rows ten_rows)\<rparr> = two_rows"
    by (simp add: ten_rows_def two_rows_def upt_rec)
  have l10: "length (df_rows ten_rows) = 10" by (simp add: ten_rows_def)
  have l10': "len ten_rows = 10" by (simp add: len_def l10)
  have h1: "tables ten_rows_registered ''pipeline_data'' = Some ten_rows"
    by (simp add: ten_rows_registered_def setup_query_def store_data_def Let_def)
  have a_asc: "list_all is_ascii (''SELECT * '' @ ''limit'' @ '' 2'' @ [])" by code_simp
  have a_asc': "list_all is_ascii ''SELECT * limit 2''" by code_simp
  have a_kw: "str_upper ''limit'' = ''LIMIT''" by code_simp
  have a_pre: "\<not> str_contains (str_upper ''SELECT * '') ''LIMIT''" by code_simp
  have a_mid: "\<not> str_contains (str_upper '' 2'') ''LIMIT''" by code_simp
  have a_rest: "([] :: string) = [] \<or> starts_with (str_upper []) ''LIMIT''" by simp
  have a_dec: "'' 2'' = '' '' @ ''2'' @ []" by simp
  have a_sp: "list_all is_space '' ''" by code_simp
  have a_w: "''2'' \<noteq> []" "list_all (\<lambda>c. \<not> is_space c) ''2''" by simp code_simp
  have a_post: "([] :: string) = [] \<or> is_space (hd [])" by simp
  have a_dg: "list_all is_digit ''2''" "length ''2'' \<le> 4300" by code_simp simp
  have a_dv: "decimal ''2'' = 2" by code_simp
  have a_r: "snd (execute_query ten_rows_registered ''2024-01-01T00:00:01'' (''SELECT * '' @ ''limit'' @ '' 2'' @ []) ''pipeline_data'') =
      ten_rows\<lparr>df_rows := take (decimal ''2'') (df_rows ten_rows)\<rparr>"
    using execute_query_limit_directive[where a = ten_rows_registered and now = "''2024-01-01T00:00:01''"
        and pre = "''SELECT * ''" and kw = "''limit''" and mid = "'' 2''" and rest = "[]" and sp = "'' ''" and w = "''2''" and post = "[]",
        OF h1 a_asc a_kw a_pre a_mid a_rest]
      a_dec a_sp a_w a_post a_dg
    by blast
  have a_r': "snd (execute_query ten_rows_registered ''2024-01-01T00:00:01'' ''SELECT * limit 2'' ''pipeline_data'') = two_rows"
    using a_r by (simp add: a_dv t2)
  have b_asc: "list_all is_ascii (''SELECT * '' @ ''LIMIT'' @ '' 2'' @ ''LIMIT'')" by code_simp
  have b_asc': "list_all is_ascii ''SELECT * LIMIT 2LIMIT''" by code_simp
  have b_kw: "str_upper ''LIMIT'' = ''LIMIT''" by code_simp
  have b_pre: "\<not> str_contains (str_upper ''SELECT * '') ''LIMIT''" by code_simp
  have b_mid: "\<not> str_contains (str_upper '' 2'') ''LIMIT''" by code_simp
  have b_st: "starts_with (str_upper ''LIMIT'') ''LIMIT''" by code_simp
  have b_rest: "''LIMIT'' = [] \<or> starts_with (str_upper ''LIMIT'') ''LIMIT''" using b_st by simp
  have b_dec: "'' 2'' = '' '' @ ''2'' @ []" by simp
  have b_sp: "list_all is_space '' ''" by code_simp
  have b_w: "''2'' \<noteq> []" "list_all (\<lambda>c. \<not> is_space c) ''2''" by simp code_simp
  have b_post: "([] :: string) = [] \<or> is_space (hd [])" by simp
  have b_dg: "list_all is_digit ''2''" "length ''2'' \<le> 4300" by code_simp simp
  have b_dv: "decimal ''2'' = 2" by code_simp
  have b_r: "snd (execute_query ten_rows_registered ''2024-01-01T00:00:01'' (''SELECT * '' @ ''LIMIT'' @ '' 2'' @ ''LIMIT'') ''pipeline_data'') =
      ten_rows\<lparr>df_rows := take (decimal ''2'') (df_rows ten_rows)\<rparr>"
    using execute_query_limit_directive[where a = ten_rows_registered and now = "''2024-01-01T00:00:01''"
        and pre = "''SELECT * ''" and kw = "''LIMIT''" and mid = "'' 2''" and rest = "''LIMIT''" and sp = "'' ''" and w = "''2''" and post = "[]",
        OF h1 b_asc b_kw b_pre b_mid b_rest]
      b_dec b_sp b_w b_post b_dg
    by blast
  have b_r': "snd (execute_query ten_rows_registered ''2024-01-01T00:00:01'' ''SELECT * LIMIT 2LIMIT'' ''pipeline_data'') = two_rows"
    using b_r by (simp add: b_dv t2)
  have c_asc: "list_all is_ascii (''SELECT * '' @ ''Limit'' @ '' -3'' @ [])" by code_simp
  have c_asc': "list_all is_ascii ''SELECT * Limit -3''" by code_simp
  have c_kw: "str_upper ''Limit'' = ''LIMIT''" by code_simp
  have c_pre: "\<not> str_contains (str_upper ''SELECT * '') ''LIMIT''" by code_simp
  have c_mid: "\<not> str_contains (str_upper '' -3'') ''LIMIT''" by code_simp
  have c_rest: "([] :: string) = [] \<or> starts_with (str_upper []) ''LIMIT''" by simp
  have c_dec: "'' -3'' = '' '' @ ''-3'' @ []" by simp
  have c_sp: "list_all is_space '' ''" by code_simp
  have c_w: "''-3'' \<noteq> []" "list_all (\<lambda>c. \<not> is_space c) ''-3''" by simp code_simp
  have c_post: "([] :: string) = [] \<or> is_space (hd [])" by simp
  have c_pi: "py_int (str_upper ''-3'') = Some (- 3)" by code_simp
  have c_sg: "(- 3 :: int) < 0" by simp
  have c_r: "snd (execute_query ten_rows_registered ''2024-01-01T00:00:01'' (''SELECT * '' @ ''Limit'' @ '' -3'' @ []) ''pipeline_data'') =
      ten_rows\<lparr>df_rows := take (length (df_rows ten_rows) - nat (- (- 3))) (df_rows ten_rows)\<rparr>"
    using execute_query_limit_directive[where a = ten_rows_registered and now = "''2024-01-01T00:00:01''"
        and pre = "''SELECT * ''" and kw = "''Limit''" and mid = "'' -3''" and rest = "[]" and sp = "'' ''" and w = "''-3''" and post = "[]",
        OF h1 c_asc c_kw c_pre c_mid c_rest]
      c_dec c_sp c_w c_post c_pi c_sg
    by blast
  have c_r': "snd (execute_query ten_rows_registered ''2024-01-01T00:00:01'' ''SELECT * Limit -3'' ''pipeline_data'') =
      ten_rows\<lparr>df_rows := take 7 (df_rows ten_rows)\<rparr>"
    using c_r by (simp add: l10)
  have d_asc: "list_all is_ascii (''select * '' @ ''limit'' @ ''  +4 offset 1'' @ [])" by code_simp
  have d_asc': "list_all is_ascii ''select * limit  +4 offset 1''" by code_simp
  have d_kw: "str_upper ''limit'' = ''LIMIT''" by code_simp
  have d_pre: "\<not> str_contains (str_upper ''select * '') ''LIMIT''" by code_simp
  have d_mid: "\<not> str_contains (str_upper ''  +4 offset 1'') ''LIMIT''" by code_simp
  have d_rest: "([] :: string) = [] \<or> starts_with (str_upper []) ''LIMIT''" by simp
  have d_dec: "''  +4 offset 1'' = ''  '' @ ''+4'' @ '' offset 1''" by simp
  have d_sp: "list_all is_space ''  ''" by code_simp
  have d_w: "''+4'' \<noteq> []" "list_all (\<lambda>c. \<not> is_space c) ''+4''" by simp code_simp
  have d_post': "is_space (hd '' offset 1'')" by code_simp
  have d_post: "'' offset 1'' = [] \<or> is_space (hd '' offset 1'')" using d_post' by simp
  have d_pi: "py_int (str_upper ''+4'') = Some (4)" by code_simp
  have d_sg: "(0::int) \<le> 4" by simp
  have d_r: "snd (execute_query ten_rows_registered ''2024-01-01T00:00:01'' (''select * '' @ ''limit'' @ ''  +4 offset 1'' @ []) ''pipeline_data'') =
      ten_rows\<lparr>df_rows := take (nat (4)) (df_rows ten_rows)\<rparr>"
    using execute_query_limit_directive[where a = ten_rows_registered and now = "''2024-01-01T00:00:01''"
        and pre = "''select * ''" and kw = "''limit''" and mid = "''  +4 offset 1''" and rest = "[]" and sp = "''  ''" and w = "''+4''" and post = "'' offset 1''",
        OF h1 d_asc d_kw d_pre d_mid d_rest]
      d_dec d_sp d_w d_post d_pi d_sg
    by blast
  have d_r': "snd (execute_query ten_rows_registered ''2024-01-01T00:00:01'' ''select * limit  +4 offset 1'' ''pipeline_data'') =
      ten_rows\<lparr>df_rows := take 4 (df_rows ten_rows)\<rparr>"
    using d_r by (simp add: l10)
  have e_asc: "list_all is_ascii (''SELECT * '' @ ''limit'' @ '' 0_3'' @ [])" by code_simp
  have e_asc': "list_all is_ascii ''SELECT * limit 0_3''" by code_simp
  have e_kw: "str_upper ''limit'' = ''LIMIT''" by code_simp
  have e_pre: "\<not> str_contains (str_upper ''SELECT * '') ''LIMIT''" by code_simp
  have e_mid: "\<not> str_contains (str_upper '' 0_3'') ''LIMIT''" by code_simp
  have e_rest: "([] :: string) = [] \<or> starts_with (str_upper []) ''LIMIT''" by simp
  have e_dec: "'' 0_3'' = '' '' @ ''0_3'' @ []" by simp
  have e_sp: "list_all is_space '' ''" by code_simp
  have e_w: "''0_3'' \<noteq> []" "list_all (\<lambda>c. \<not> is_space c) ''0_3''" by simp code_simp
  have e_post: "([] :: string) = [] \<or> is_space (hd [])" by simp
  have e_pi: "py_int (str_upper ''0_3'') = Some (3)" by code_simp
  have e_sg: "(0::int) \<le> 3" by simp
  have e_r: "snd (execute_query ten_rows_registered ''2024-01-01T00:00:01'' (''SELECT * '' @ ''limit'' @ '' 0_3'' @ []) ''pipeline_data'') =
      ten_rows\<lparr>df_rows := take (nat (3)) (df_rows ten_rows)\<rparr>"
    using execute_query_limit_directive[where a = ten_rows_registered and now = "''2024-01-01T00:00:01''"
        and pre = "''SELECT * ''" and kw = "''limit''" and mid = "'' 0_3''" and rest = "[]" and sp = "'' ''" and w = "''0_3''" and post = "[]",
        OF h1 e_asc e_kw e_pre e_mid e_rest]
      e_dec e_sp e_w e_post e_pi e_sg
    by blast
  have e_r': "snd (execute_query ten_rows_registered ''2024-01-01T00:00:01'' ''SELECT * limit 0_3'' ''pipeline_data'') =
      ten_rows\<lparr>df_rows := take 3 (df_rows ten_rows)\<rparr>"
    using e_r by (simp add: l10)
  have f_asc: "list_all is_ascii (''SELECT * '' @ ''limit'' @ '' 2;'' @ [])" by code_simp
  have f_asc': "list_all is_ascii ''SELECT * limit 2;''" by code_simp
  have f_kw: "str_upper ''limit'' = ''LIMIT''" by code_simp
  have f_pre: "\<not> str_contains (str_upper ''SELECT * '') ''LIMIT''" by code_simp
  have f_mid: "\<not> str_contains (str_upper '' 2;'') ''LIMIT''" by code_simp
  have f_rest: "([] :: string) = [] \<or> starts_with (str_upper []) ''LIMIT''" by simp
  have f_dec: "'' 2;'' = '' '' @ ''2;'' @ []" by simp
  have f_sp: "list_all is_space '' ''" by code_simp
  have f_w: "''2;'' \<noteq> []" "list_all (\<lambda>c. \<not> is_space c) ''2;''" by simp code_simp
  have f_post: "([] :: string) = [] \<or> is_space (hd [])" by simp
  have f_pi: "py_int (str_upper ''2;'') = None" by code_simp
  have f_r: "snd (execute_query ten_rows_registered ''2024-01-01T00:00:01'' (''SELECT * '' @ ''limit'' @ '' 2;'' @ []) ''pipeline_data'') = ten_rows"
    using execute_query_limit_directive[where a = ten_rows_registered and now = "''2024-01-01T00:00:01''"
        and pre = "''SELECT * ''" and kw = "''limit''" and mid = "'' 2;''" and rest = "[]" and sp = "'' ''" and w = "''2;''" and post = "[]",
        OF h1 f_asc f_kw f_pre f_mid f_rest]
      f_dec f_sp f_w f_post f_pi
    by blast
  have f_r': "snd (execute_query ten_rows_registered ''2024-01-01T00:00:01'' ''SELECT * limit 2;'' ''pipeline_data'') = ten_rows" using f_r by simp
  have g_asc: "list_all is_ascii (''SELECT * '' @ ''limit'' @ ''  '' @ [])" by code_simp
  have g_asc': "list_all is_ascii ''SELECT * limit  ''" by code_simp
  have g_kw: "str_upper ''limit'' = ''LIMIT''" by code_simp
  have g_pre: "\<not> str_contains (str_upper ''SELECT * '') ''LIMIT''" by code_simp
  have g_mid: "\<not> str_contains (str_upper ''  '') ''LIMIT''" by code_simp
  have g_rest: "([] :: string) = [] \<or> starts_with (str_upper []) ''LIMIT''" by simp
  have g_bl: "list_all is_space ''  ''" by code_simp
  have g_r: "snd (execute_query ten_rows_registered ''2024-01-01T00:00:01'' (''SELECT * '' @ ''limit'' @ ''  '' @ []) ''pipeline_data'') = ten_rows"
    using execute_query_limit_directive[where a = ten_rows_registered and now = "''2024-01-01T00:00:01''"
        and pre = "''SELECT * ''" and kw = "''limit''" and mid = "''  ''" and rest = "[]", OF h1 g_asc g_kw g_pre g_mid g_rest] g_bl
    by blast
  have g_r': "snd (execute_query ten_rows_registered ''2024-01-01T00:00:01'' ''SELECT * limit  '' ''pipeline_data'') = ten_rows" using g_r by simp
  have n_asc: "list_all is_ascii ''SELECT *''" by code_simp
  have n_no: "\<not> str_contains (str_upper ''SELECT *'') ''LIMIT''" by code_simp
  have n_r': "snd (execute_query ten_rows_registered ''2024-01-01T00:00:01'' ''SELECT *'' ''pipeline_data'') = ten_rows"
    using execute_query_limit_directive[where a = ten_rows_registered and now = "''2024-01-01T00:00:01''"
        and pre = "''SELECT * ''" and kw = "''limit''" and mid = "'' 2''" and rest = "[]"
        and query = "''SELECT *''", OF h1 a_asc a_kw a_pre a_mid a_rest] n_asc n_no
    by blast
  show ?thesis
    unfolding two_rows_def[symmetric]
    by (intro conjI)
       (rule a_asc' a_kw a_pre a_mid a_sp a_w a_dg a_dv a_r' b_asc' b_kw b_pre b_mid b_st
          b_sp b_w b_dg b_dv b_r' c_asc' c_kw c_pre c_mid c_sp c_w c_pi c_r' d_asc' d_kw
          d_pre d_mid d_sp d_w d_post d_pi d_r' e_asc' e_kw e_pre e_mid e_sp e_w e_pi e_r'
          f_asc' f_kw f_pre f_mid f_sp f_w f_pi f_r' g_asc' g_kw g_pre g_mid g_bl g_r'
          n_asc n_no n_r' l10' h1)+
qed


end
